theory Spec2Isabelle
  imports Main "HOL-Library.Word" "HOL-Library.List_Lexorder" "HOL-Library.Char_ord"
begin

unbundle bit_operations_syntax

section \<open>Outcomes and errors\<close>

text \<open>
  A Go function either returns or panics (index out of range, slice bounds out of
  range, comparing uncomparable interface values).  A panic is not an error value:
  it unwinds the goroutine.  Every function of the model that can panic returns an
  \<open>outcome\<close>.
\<close>

datatype 'a outcome = Panic | Return 'a

text \<open>
  The error values the file system layer produces.  \<open>ErrForbidden\<close> is the package
  variable \<^verbatim>\<open>sftp.ErrForbidden\<close>; \<open>ErrPermission\<close>, \<open>ErrInvalid\<close>, \<open>ErrNotExist\<close> are
  \<^verbatim>\<open>os.ErrPermission\<close>, \<^verbatim>\<open>os.ErrInvalid\<close>, \<^verbatim>\<open>os.ErrNotExist\<close>; \<open>EOF\<close> and
  \<open>ErrUnexpectedEOF\<close> and \<open>ErrShortWrite\<close> are those of package \<^verbatim>\<open>io\<close>; \<open>Errorf m\<close> is
  \<^verbatim>\<open>fmt.Errorf(m)\<close>.
\<close>

datatype error =
    EOF
  | ErrUnexpectedEOF
  | ErrForbidden
  | ErrPermission
  | ErrInvalid
  | ErrNotExist
  | ErrShortWrite
  | Errorf string

section \<open>Lexical path functions of the Go library (Unix separator)\<close>

text \<open>
  \<^verbatim>\<open>path/filepath\<close> on a system whose separator is \<^verbatim>\<open>/\<close>.  \<^verbatim>\<open>ToSlash\<close> replaces the
  separator by a slash and is the identity there.  \<^verbatim>\<open>Clean\<close> follows the rules of its
  documentation: an empty path becomes \<^verbatim>\<open>.\<close>; empty and \<^verbatim>\<open>.\<close> elements are dropped; a
  \<^verbatim>\<open>..\<close> element removes the element before it, is dropped at the root of a rooted
  path and is kept at the start of a relative one; an empty result becomes \<^verbatim>\<open>.\<close>.
\<close>

definition ToSlash :: "string \<Rightarrow> string" where
  "ToSlash path = path"

fun elems :: "string \<Rightarrow> string list" where
  "elems [] = [[]]"
| "elems (c # cs) =
     (if c = CHR ''/'' then [] # elems cs
      else (case elems cs of [] \<Rightarrow> [[c]] | e # es \<Rightarrow> (c # e) # es))"

fun joinSep :: "string list \<Rightarrow> string" where
  "joinSep [] = []"
| "joinSep [e] = e"
| "joinSep (e # es) = e @ ''/'' @ joinSep es"

fun cleanElems :: "bool \<Rightarrow> string list \<Rightarrow> string list \<Rightarrow> string list" where
  "cleanElems rooted out [] = out"
| "cleanElems rooted out (e # es) =
     (if e = [] \<or> e = ''.'' then cleanElems rooted out es
      else if e = ''..'' then
        (if out \<noteq> [] \<and> last out \<noteq> ''..'' then cleanElems rooted (butlast out) es
         else if \<not> rooted then cleanElems rooted (out @ [''..'']) es
         else cleanElems rooted out es)
      else cleanElems rooted (out @ [e]) es)"

definition Clean :: "string \<Rightarrow> string" where
  "Clean path =
     (if path = [] then ''.''
      else
        (let rooted = (hd path = CHR ''/'');
             r = (if rooted then ''/'' else []) @ joinSep (cleanElems rooted [] (elems path))
         in if r = [] then ''.'' else r))"

text \<open>\<^verbatim>\<open>filepath.Join\<close> of two elements: empty elements are ignored, the rest is joined
  by the separator and cleaned; when every element is empty the result is empty.\<close>

definition Join :: "string \<Rightarrow> string \<Rightarrow> string" where
  "Join a b =
     (if a \<noteq> [] then Clean (a @ ''/'' @ b)
      else if b \<noteq> [] then Clean b
      else [])"

section \<open>The path validator and normalizer\<close>

text \<open>\<^verbatim>\<open>path[k]\<close>: reading a byte past the end of a string panics.\<close>

definition byteAt :: "string \<Rightarrow> nat \<Rightarrow> char outcome" where
  "byteAt path k = (if k < length path then Return (path ! k) else Panic)"

text \<open>The inner loop of \<^verbatim>\<open>ContainsValidDir\<close>: fast-forward to the position after the
  next slash, or to the end.\<close>

function fastForward :: "string \<Rightarrow> nat \<Rightarrow> nat" where
  "fastForward path i =
     (if i < length path then
        (if path ! i = CHR ''/'' then i + 1 else fastForward path (i + 1))
      else i)"
  by pat_completeness auto
termination
  by (relation "measure (\<lambda>(path, i). length path - i)") auto

declare fastForward.simps [simp del]

lemma fastForward_ge: "i \<le> fastForward path i"
proof (induction path i rule: fastForward.induct)
  case (1 path i)
  then show ?case
    by (subst fastForward.simps) (auto simp: Suc_leD)
qed

text \<open>
  The outer loop.  The two dot tests are Go conditions with short-circuit evaluation:
  \<^verbatim>\<open>path[i] == '.' && (i+1 == n || path[i+1] == '/')\<close> and
  \<^verbatim>\<open>path[i] == '.' && path[i+1] == '.' && (i+2 == n || path[i+2] == '/')\<close>; each
  read goes through \<open>byteAt\<close>.
\<close>

definition dotSegment :: "string \<Rightarrow> nat \<Rightarrow> bool outcome" where
  "dotSegment path i =
     (case byteAt path i of
        Panic \<Rightarrow> Panic
      | Return c \<Rightarrow>
          if c \<noteq> CHR ''.'' then Return False
          else if i + 1 = length path then Return True
          else (case byteAt path (i + 1) of
                  Panic \<Rightarrow> Panic
                | Return d \<Rightarrow> Return (d = CHR ''/'')))"

definition dotdotSegment :: "string \<Rightarrow> nat \<Rightarrow> bool outcome" where
  "dotdotSegment path i =
     (case byteAt path i of
        Panic \<Rightarrow> Panic
      | Return c \<Rightarrow>
          if c \<noteq> CHR ''.'' then Return False
          else (case byteAt path (i + 1) of
                  Panic \<Rightarrow> Panic
                | Return d \<Rightarrow>
                    if d \<noteq> CHR ''.'' then Return False
                    else if i + 2 = length path then Return True
                    else (case byteAt path (i + 2) of
                            Panic \<Rightarrow> Panic
                          | Return e \<Rightarrow> Return (e = CHR ''/''))))"

function validLoop :: "string \<Rightarrow> nat \<Rightarrow> bool outcome" where
  "validLoop path i =
     (if i < length path then
        (case byteAt path i of
           Panic \<Rightarrow> Panic
         | Return c \<Rightarrow>
             if c = CHR ''/'' \<and> 0 < i then Return False
             else (case dotSegment path i of
                     Panic \<Rightarrow> Panic
                   | Return True \<Rightarrow> Return False
                   | Return False \<Rightarrow>
                       (case dotdotSegment path i of
                          Panic \<Rightarrow> Panic
                        | Return True \<Rightarrow> Return False
                        | Return False \<Rightarrow> validLoop path (fastForward path (i + 1)))))
      else Return True)"
  by pat_completeness auto
termination
proof (relation "measure (\<lambda>(path, i). length path - i)")
  show "wf (measure (\<lambda>(path, i). length path - i))"
    by simp
next
  fix path :: string and i :: nat
  assume "i < length path"
  moreover have "i + 1 \<le> fastForward path (i + 1)"
    by (rule fastForward_ge)
  ultimately show "((path, fastForward path (i + 1)), (path, i))
      \<in> measure (\<lambda>(path, i). length path - i)"
    by simp
qed

declare validLoop.simps [simp del]

definition ContainsValidDir :: "string \<Rightarrow> bool outcome" where
  "ContainsValidDir path =
     (case byteAt path 0 of
        Panic \<Rightarrow> Panic
      | Return c \<Rightarrow> validLoop path (if c = CHR ''/'' then 1 else 0))"

definition normalizePath :: "string \<Rightarrow> (error + string) outcome" where
  "normalizePath path0 =
     (let path1 = ToSlash (Clean path0);
          path = (if path1 = [] then ''/'' else path1)
      in case ContainsValidDir path of
           Panic \<Rightarrow> Panic
         | Return ok \<Rightarrow>
             if \<not> ok then Return (Inl (Errorf ''wrong path''))
             else Return (Inr path))"

section \<open>The native directory mount\<close>

record DirFs =
  Root :: string
  Readonly :: bool

definition DirFs_CanRead :: "DirFs \<Rightarrow> string \<Rightarrow> bool" where
  "DirFs_CanRead d p = True"

definition DirFs_CanWrite :: "DirFs \<Rightarrow> string \<Rightarrow> bool" where
  "DirFs_CanWrite d p = (\<not> Readonly d)"

text \<open>
  \<^verbatim>\<open>IntoAbsPath\<close>.  The guard is \<^verbatim>\<open>!ContainsValidDir(realPath) || realPath[:len(d.Root)] != d.Root\<close>:
  the slice is taken only when the path is valid, and a slice bound beyond the length
  of the string panics.
\<close>

definition IntoAbsPath :: "DirFs \<Rightarrow> string \<Rightarrow> (error + string) outcome" where
  "IntoAbsPath d path =
     (let joined = ToSlash (Join (Root d) path);
          realPath = (if int (length joined) = int (length (Root d)) - 1
                      then joined @ ''/'' else joined)
      in case ContainsValidDir realPath of
           Panic \<Rightarrow> Panic
         | Return ok \<Rightarrow>
             if \<not> ok then Return (Inl (Errorf ''invalid path''))
             else if length realPath < length (Root d) then Panic
             else if take (length (Root d)) realPath \<noteq> Root d
               then Return (Inl (Errorf ''invalid path''))
             else Return (Inr realPath))"


section \<open>The file system interface\<close>

text \<open>
  \<^verbatim>\<open>os.FileInfo\<close> as the record of what its methods return.  \<^verbatim>\<open>renamedFileInfo{info, n}\<close>
  answers \<^verbatim>\<open>Name()\<close> with \<open>n\<close> and everything else from \<open>info\<close>.
\<close>

record FileInfo =
  Name :: string
  Size :: int
  Mode :: "32 word"
  ModTime :: int
  IsDir :: bool

definition renamedFileInfo :: "FileInfo \<Rightarrow> string \<Rightarrow> FileInfo" where
  "renamedFileInfo original newName = original\<lparr>Name := newName\<rparr>"

record FileAttrFlags =
  flagSize :: bool
  flagPermissions :: bool
  flagAcmodtime :: bool
  flagUidGid :: bool

record FileStat =
  statSize :: "64 word"
  statMode :: "32 word"
  statMtime :: "32 word"
  statAtime :: "32 word"
  statUID :: "32 word"
  statGID :: "32 word"

text \<open>
  The function a \<^verbatim>\<open>List\<close> method returns, \<^verbatim>\<open>func([]os.FileInfo, int64) (int, error)\<close>,
  for a listing that does not change between calls: from the length of the buffer
  and the offset to the entries written to the front of the buffer (their number is
  the returned count) and the error.
\<close>

type_synonym lister = "nat \<Rightarrow> int \<Rightarrow> (FileInfo list \<times> error option) outcome"

text \<open>
  The interface \<^verbatim>\<open>SimplifiedFS\<close> as a method table.  A method acts on the state \<open>'s\<close>
  of the world (the host file system) and returns its result with the new state;
  \<open>'l\<close> is the type of the functions \<^verbatim>\<open>List\<close> returns, \<open>'rd\<close> and \<open>'wr\<close> are the
  \<^verbatim>\<open>io.ReaderAt\<close> and \<^verbatim>\<open>io.WriterAt\<close> values.
\<close>

record ('s, 'l, 'rd, 'wr) SimplifiedFS =
  fsList :: "string \<Rightarrow> 's \<Rightarrow> (error + 'l) \<times> 's"
  fsLstat :: "string \<Rightarrow> 's \<Rightarrow> (error + FileInfo) \<times> 's"
  fsStat :: "string \<Rightarrow> 's \<Rightarrow> (error + FileInfo) \<times> 's"
  fsReadLink :: "string \<Rightarrow> 's \<Rightarrow> (error + FileInfo) \<times> 's"
  fsRead :: "string \<Rightarrow> 's \<Rightarrow> (error + 'rd) \<times> 's"
  fsWrite :: "string \<Rightarrow> 's \<Rightarrow> (error + 'wr) \<times> 's"
  fsSetStat :: "string \<Rightarrow> FileAttrFlags \<Rightarrow> FileStat \<Rightarrow> 's \<Rightarrow> error option \<times> 's"
  fsRename :: "string \<Rightarrow> string \<Rightarrow> 's \<Rightarrow> error option \<times> 's"
  fsRmdir :: "string \<Rightarrow> 's \<Rightarrow> error option \<times> 's"
  fsRm :: "string \<Rightarrow> 's \<Rightarrow> error option \<times> 's"
  fsMkdir :: "string \<Rightarrow> 's \<Rightarrow> error option \<times> 's"
  fsLink :: "string \<Rightarrow> string \<Rightarrow> 's \<Rightarrow> error option \<times> 's"
  fsSymlink :: "string \<Rightarrow> string \<Rightarrow> 's \<Rightarrow> error option \<times> 's"

text \<open>
  A value of interface type is a value \<open>'i\<close> together with the method table of its
  dynamic type.  In the functions below the parameter \<open>methods\<close> is this dispatch: it
  maps a file system value to its methods.
\<close>

section \<open>The permission wrapper\<close>

text \<open>A compiled regular expression, as its \<^verbatim>\<open>MatchString\<close>.\<close>

type_synonym Regexp = "string \<Rightarrow> bool"

record 'i PermWrapperFS =
  Inner :: 'i
  CanReadRegexp :: "Regexp list"
  CanWriteRegexp :: "Regexp list"
  ShouldHideRegexp :: "Regexp list"

text \<open>The loop shared by \<^verbatim>\<open>CanRead\<close>, \<^verbatim>\<open>CanWrite\<close> and \<^verbatim>\<open>ShouldHide\<close>: true at the first
  expression that matches, false when the list is exhausted.\<close>

fun matchAny :: "Regexp list \<Rightarrow> string \<Rightarrow> bool" where
  "matchAny [] path = False"
| "matchAny (r # rs) path = (if r path then True else matchAny rs path)"

definition PermWrapperFS_CanRead :: "'i PermWrapperFS \<Rightarrow> string \<Rightarrow> bool" where
  "PermWrapperFS_CanRead p path = matchAny (CanReadRegexp p) path"

definition PermWrapperFS_CanWrite :: "'i PermWrapperFS \<Rightarrow> string \<Rightarrow> bool" where
  "PermWrapperFS_CanWrite p path = matchAny (CanWriteRegexp p) path"

definition PermWrapperFS_ShouldHide :: "'i PermWrapperFS \<Rightarrow> string \<Rightarrow> bool" where
  "PermWrapperFS_ShouldHide p path = matchAny (ShouldHideRegexp p) path"

definition PermWrapperFS_Lstat ::
  "('i \<Rightarrow> ('s, 'l, 'rd, 'wr) SimplifiedFS) \<Rightarrow> 'i PermWrapperFS \<Rightarrow> string \<Rightarrow> 's
    \<Rightarrow> (error + FileInfo) \<times> 's" where
  "PermWrapperFS_Lstat methods p path s =
     (if PermWrapperFS_CanRead p path \<and> \<not> PermWrapperFS_ShouldHide p path
      then fsLstat (methods (Inner p)) path s
      else (Inl ErrForbidden, s))"

definition PermWrapperFS_Stat ::
  "('i \<Rightarrow> ('s, 'l, 'rd, 'wr) SimplifiedFS) \<Rightarrow> 'i PermWrapperFS \<Rightarrow> string \<Rightarrow> 's
    \<Rightarrow> (error + FileInfo) \<times> 's" where
  "PermWrapperFS_Stat methods p path s =
     (if PermWrapperFS_CanRead p path \<and> \<not> PermWrapperFS_ShouldHide p path
      then fsStat (methods (Inner p)) path s
      else (Inl ErrForbidden, s))"

definition PermWrapperFS_ReadLink ::
  "('i \<Rightarrow> ('s, 'l, 'rd, 'wr) SimplifiedFS) \<Rightarrow> 'i PermWrapperFS \<Rightarrow> string \<Rightarrow> 's
    \<Rightarrow> (error + FileInfo) \<times> 's" where
  "PermWrapperFS_ReadLink methods p path s =
     (if PermWrapperFS_CanRead p path \<and> \<not> PermWrapperFS_ShouldHide p path
      then fsReadLink (methods (Inner p)) path s
      else (Inl ErrForbidden, s))"

definition PermWrapperFS_Read ::
  "('i \<Rightarrow> ('s, 'l, 'rd, 'wr) SimplifiedFS) \<Rightarrow> 'i PermWrapperFS \<Rightarrow> string \<Rightarrow> 's
    \<Rightarrow> (error + 'rd) \<times> 's" where
  "PermWrapperFS_Read methods p path s =
     (if PermWrapperFS_CanRead p path \<and> \<not> PermWrapperFS_ShouldHide p path
      then fsRead (methods (Inner p)) path s
      else (Inl ErrForbidden, s))"

definition PermWrapperFS_Write ::
  "('i \<Rightarrow> ('s, 'l, 'rd, 'wr) SimplifiedFS) \<Rightarrow> 'i PermWrapperFS \<Rightarrow> string \<Rightarrow> 's
    \<Rightarrow> (error + 'wr) \<times> 's" where
  "PermWrapperFS_Write methods p path s =
     (if PermWrapperFS_CanWrite p path \<and> \<not> PermWrapperFS_ShouldHide p path
      then fsWrite (methods (Inner p)) path s
      else (Inl ErrForbidden, s))"

definition PermWrapperFS_SetStat ::
  "('i \<Rightarrow> ('s, 'l, 'rd, 'wr) SimplifiedFS) \<Rightarrow> 'i PermWrapperFS \<Rightarrow> string \<Rightarrow> FileAttrFlags
    \<Rightarrow> FileStat \<Rightarrow> 's \<Rightarrow> error option \<times> 's" where
  "PermWrapperFS_SetStat methods p path flags attributes s =
     (if PermWrapperFS_CanWrite p path \<and> \<not> PermWrapperFS_ShouldHide p path
      then fsSetStat (methods (Inner p)) path flags attributes s
      else (Some ErrForbidden, s))"

definition PermWrapperFS_Rename ::
  "('i \<Rightarrow> ('s, 'l, 'rd, 'wr) SimplifiedFS) \<Rightarrow> 'i PermWrapperFS \<Rightarrow> string \<Rightarrow> string \<Rightarrow> 's
    \<Rightarrow> error option \<times> 's" where
  "PermWrapperFS_Rename methods p src dst s =
     (if PermWrapperFS_CanWrite p src \<and> PermWrapperFS_CanWrite p dst
         \<and> \<not> PermWrapperFS_ShouldHide p src \<and> \<not> PermWrapperFS_ShouldHide p dst
      then fsRename (methods (Inner p)) src dst s
      else (Some ErrForbidden, s))"

definition PermWrapperFS_Rmdir ::
  "('i \<Rightarrow> ('s, 'l, 'rd, 'wr) SimplifiedFS) \<Rightarrow> 'i PermWrapperFS \<Rightarrow> string \<Rightarrow> 's
    \<Rightarrow> error option \<times> 's" where
  "PermWrapperFS_Rmdir methods p path s =
     (if PermWrapperFS_CanWrite p path \<and> \<not> PermWrapperFS_ShouldHide p path
      then fsRmdir (methods (Inner p)) path s
      else (Some ErrForbidden, s))"

definition PermWrapperFS_Rm ::
  "('i \<Rightarrow> ('s, 'l, 'rd, 'wr) SimplifiedFS) \<Rightarrow> 'i PermWrapperFS \<Rightarrow> string \<Rightarrow> 's
    \<Rightarrow> error option \<times> 's" where
  "PermWrapperFS_Rm methods p path s =
     (if PermWrapperFS_CanWrite p path \<and> \<not> PermWrapperFS_ShouldHide p path
      then fsRm (methods (Inner p)) path s
      else (Some ErrForbidden, s))"

definition PermWrapperFS_Mkdir ::
  "('i \<Rightarrow> ('s, 'l, 'rd, 'wr) SimplifiedFS) \<Rightarrow> 'i PermWrapperFS \<Rightarrow> string \<Rightarrow> 's
    \<Rightarrow> error option \<times> 's" where
  "PermWrapperFS_Mkdir methods p path s =
     (if PermWrapperFS_CanWrite p path \<and> \<not> PermWrapperFS_ShouldHide p path
      then fsMkdir (methods (Inner p)) path s
      else (Some ErrForbidden, s))"

definition PermWrapperFS_Link ::
  "('i \<Rightarrow> ('s, 'l, 'rd, 'wr) SimplifiedFS) \<Rightarrow> 'i PermWrapperFS \<Rightarrow> string \<Rightarrow> string \<Rightarrow> 's
    \<Rightarrow> error option \<times> 's" where
  "PermWrapperFS_Link methods p src dst s =
     (if PermWrapperFS_CanRead p src \<and> PermWrapperFS_CanWrite p dst
         \<and> \<not> PermWrapperFS_ShouldHide p src \<and> \<not> PermWrapperFS_ShouldHide p dst
      then fsLink (methods (Inner p)) src dst s
      else (Some ErrForbidden, s))"

definition PermWrapperFS_Symlink ::
  "('i \<Rightarrow> ('s, 'l, 'rd, 'wr) SimplifiedFS) \<Rightarrow> 'i PermWrapperFS \<Rightarrow> string \<Rightarrow> string \<Rightarrow> 's
    \<Rightarrow> error option \<times> 's" where
  "PermWrapperFS_Symlink methods p src dst s =
     (if PermWrapperFS_CanRead p src \<and> PermWrapperFS_CanWrite p dst
         \<and> \<not> PermWrapperFS_ShouldHide p src \<and> \<not> PermWrapperFS_ShouldHide p dst
      then fsSymlink (methods (Inner p)) src dst s
      else (Some ErrForbidden, s))"

subsection \<open>The filtered listing\<close>

text \<open>The variables the returned closure captures and updates between calls.\<close>

record listState =
  idxToHide :: "int list"
  maxOffsetYet :: int

fun contains :: "int list \<Rightarrow> int \<Rightarrow> bool" where
  "contains [] element = False"
| "contains (item # array) element = (if item = element then True else contains array element)"

definition maxInt64 :: "int \<Rightarrow> int \<Rightarrow> int" where
  "maxInt64 a b = (if a < b then b else a)"

lemma contains_set: "contains xs x = (x \<in> set xs)"
  by (induction xs) auto

lemma contains_filter_less:
  "contains xs r \<Longrightarrow>
     length (filter (\<lambda>x. r + 1 \<le> x) xs) < length (filter (\<lambda>x. r \<le> x) xs)"
proof (induction xs)
  case Nil
  then show ?case by simp
next
  case (Cons a xs)
  have le: "length (filter (\<lambda>x. r + 1 \<le> x) xs) \<le> length (filter (\<lambda>x. r \<le> x) xs)"
    by (induction xs) auto
  show ?case
  proof (cases "a = r")
    case True
    with le show ?thesis by simp
  next
    case False
    with Cons have "length (filter (\<lambda>x. r + 1 \<le> x) xs) < length (filter (\<lambda>x. r \<le> x) xs)"
      by simp
    then show ?thesis by simp
  qed
qed

text \<open>
  The first loop of the closure: it walks the inner offsets from 0 until \<open>offset\<close>
  visible entries have been passed.  An inner offset recorded in \<open>idxToHide\<close> is
  skipped; below \<open>maxOffsetYet\<close> an offset not recorded counts as visible; otherwise the
  single entry at the inner offset is listed and classified.  The result is the early
  return of the closure (an error) or the inner offset reached.
\<close>

function skipLoop ::
  "'i PermWrapperFS \<Rightarrow> string \<Rightarrow> lister \<Rightarrow> int \<Rightarrow> int \<Rightarrow> int \<Rightarrow> listState
    \<Rightarrow> ((error + int) \<times> listState) outcome" where
  "skipLoop p path iter offset i realOffset st =
     (if i < offset then
        (if i < maxOffsetYet st \<and> \<not> contains (idxToHide st) realOffset then
           skipLoop p path iter offset (i + 1) (realOffset + 1) st
         else if maxOffsetYet st \<le> i then
           (case iter 1 realOffset of
              Panic \<Rightarrow> Panic
            | Return (tmp, err) \<Rightarrow>
                (case err of
                   Some e \<Rightarrow> Return (Inl e, st\<lparr>maxOffsetYet := maxOffsetYet st + 1\<rparr>)
                 | None \<Rightarrow>
                     (case tmp of
                        [] \<Rightarrow> Return (Inl ErrUnexpectedEOF, st\<lparr>maxOffsetYet := maxOffsetYet st + 1\<rparr>)
                      | t # ts \<Rightarrow>
                          if PermWrapperFS_ShouldHide p (Join path (Name t)) then
                            skipLoop p path iter offset i (realOffset + 1)
                              (st\<lparr>maxOffsetYet := maxOffsetYet st + 1,
                                  idxToHide := idxToHide st @ [realOffset]\<rparr>)
                          else
                            skipLoop p path iter offset (i + 1) (realOffset + 1)
                              (st\<lparr>maxOffsetYet := maxOffsetYet st + 1\<rparr>))))
         else skipLoop p path iter offset i (realOffset + 1) st)
      else Return (Inr realOffset, st))"
  by pat_completeness auto
termination
  by (relation "measures
        [\<lambda>(p, path, iter, offset, i, realOffset, st). nat (offset - i),
         \<lambda>(p, path, iter, offset, i, realOffset, st). nat (i + 1 - maxOffsetYet st),
         \<lambda>(p, path, iter, offset, i, realOffset, st).
            length (filter (\<lambda>x. realOffset \<le> x) (idxToHide st))]")
    (auto simp: contains_filter_less)

declare skipLoop.simps [simp del]

text \<open>The inner \<^verbatim>\<open>for\<close> of the second loop: the entries of one inner batch that are
  not hidden, in order; the inner index of every hidden one is recorded.\<close>

fun filterBatch ::
  "'i PermWrapperFS \<Rightarrow> string \<Rightarrow> FileInfo list \<Rightarrow> int \<Rightarrow> listState
    \<Rightarrow> FileInfo list \<times> listState" where
  "filterBatch p path [] idx st = ([], st)"
| "filterBatch p path (x # xs) idx st =
     (if \<not> PermWrapperFS_ShouldHide p (Join path (Name x)) then
        (case filterBatch p path xs (idx + 1) st of (ls, st') \<Rightarrow> (x # ls, st'))
      else
        filterBatch p path xs (idx + 1)
          (st\<lparr>idxToHide := (if \<not> contains (idxToHide st) idx
                              then idxToHide st @ [idx] else idxToHide st),
              maxOffsetYet := maxInt64 idx (maxOffsetYet st)\<rparr>))"

text \<open>
  The second loop, \<^verbatim>\<open>for j == 0 && !eof\<close>: it pulls inner batches of the size of the
  caller's buffer from the inner offset on until a batch has a visible entry or the
  inner listing reports \<^verbatim>\<open>io.EOF\<close>.  The loop need not end for every inner lister
  (one that keeps answering zero entries without an error), so the function is
  partial: \<open>None\<close> is a run that does not return.
\<close>

partial_function (option) fillLoop ::
  "'i PermWrapperFS \<Rightarrow> string \<Rightarrow> lister \<Rightarrow> nat \<Rightarrow> int \<Rightarrow> listState
    \<Rightarrow> ((FileInfo list \<times> error option) \<times> listState) outcome option" where
  "fillLoop p path iter n realOffset st =
     (case iter n realOffset of
        Panic \<Rightarrow> Some Panic
      | Return (raw, err) \<Rightarrow>
          if err \<noteq> None \<and> err \<noteq> Some EOF then Some (Return (([], err), st))
          else
            (case filterBatch p path raw realOffset st of
               (ls, st') \<Rightarrow>
                 if ls = [] \<and> err \<noteq> Some EOF
                 then fillLoop p path iter n (realOffset + int (length raw)) st'
                 else Some (Return ((ls, if err = Some EOF then Some EOF else None), st'))))"

declare fillLoop.simps [code]

text \<open>One call of the closure with a buffer of length \<open>n\<close>.\<close>

definition PermWrapperFS_fill ::
  "'i PermWrapperFS \<Rightarrow> string \<Rightarrow> lister \<Rightarrow> listState \<Rightarrow> nat \<Rightarrow> int
    \<Rightarrow> ((FileInfo list \<times> error option) \<times> listState) outcome option" where
  "PermWrapperFS_fill p path iter st n offset =
     (case skipLoop p path iter offset 0 0 st of
        Panic \<Rightarrow> Some Panic
      | Return (Inl e, st1) \<Rightarrow> Some (Return (([], Some e), st1))
      | Return (Inr realOffset, st1) \<Rightarrow> fillLoop p path iter n realOffset st1)"

text \<open>
  What \<^verbatim>\<open>PermWrapperFS.List\<close> returns: the inner lister itself when there is no hide
  expression, else the filtering closure over the inner lister, the listed path and
  its two variables.
\<close>

datatype permLister =
    Unfiltered lister
  | Filtered lister string listState

definition PermWrapperFS_List ::
  "('i \<Rightarrow> ('s, lister, 'rd, 'wr) SimplifiedFS) \<Rightarrow> 'i PermWrapperFS \<Rightarrow> string \<Rightarrow> 's
    \<Rightarrow> (error + permLister) \<times> 's" where
  "PermWrapperFS_List methods p path s =
     (if \<not> PermWrapperFS_CanRead p path \<or> PermWrapperFS_ShouldHide p path
      then (Inl ErrForbidden, s)
      else
        (case fsList (methods (Inner p)) path s of
           (Inl err, s') \<Rightarrow> (Inl err, s')
         | (Inr iter, s') \<Rightarrow>
             if ShouldHideRegexp p = [] then (Inr (Unfiltered iter), s')
             else (Inr (Filtered iter path \<lparr>idxToHide = [], maxOffsetYet = 0\<rparr>), s')))"

definition callLister ::
  "'i PermWrapperFS \<Rightarrow> permLister \<Rightarrow> nat \<Rightarrow> int
    \<Rightarrow> ((FileInfo list \<times> error option) \<times> permLister) outcome option" where
  "callLister p l n offset =
     (case l of
        Unfiltered iter \<Rightarrow>
          (case iter n offset of
             Panic \<Rightarrow> Some Panic
           | Return r \<Rightarrow> Some (Return (r, Unfiltered iter)))
      | Filtered iter path st \<Rightarrow>
          (case PermWrapperFS_fill p path iter st n offset of
             None \<Rightarrow> None
           | Some Panic \<Rightarrow> Some Panic
           | Some (Return (r, st')) \<Rightarrow> Some (Return (r, Filtered iter path st'))))"

text \<open>
  A client that follows the offset protocol: one call per buffer length of the list,
  the first at offset 0, each further one at the previous offset plus the number of
  entries the previous call returned; it stops at the first call that returns an
  error (\<^verbatim>\<open>io.EOF\<close> included).  The result is the concatenation of the entries
  returned and the error of the last call.
\<close>

fun protocolCalls ::
  "'i PermWrapperFS \<Rightarrow> permLister \<Rightarrow> nat list \<Rightarrow> int \<Rightarrow> FileInfo list
    \<Rightarrow> (FileInfo list \<times> error option) outcome option" where
  "protocolCalls p l [] offset acc = Some (Return (acc, None))"
| "protocolCalls p l (n # ns) offset acc =
     (case callLister p l n offset of
        None \<Rightarrow> None
      | Some Panic \<Rightarrow> Some Panic
      | Some (Return ((ls, err), l')) \<Rightarrow>
          (case err of
             Some e \<Rightarrow> Some (Return (acc @ ls, Some e))
           | None \<Rightarrow> protocolCalls p l' ns (offset + int (length ls)) (acc @ ls)))"

text \<open>
  The closure \<^verbatim>\<open>DirFs.List\<close> returns over the entries it has read: past the end it
  answers \<^verbatim>\<open>io.EOF\<close>; otherwise it copies \<^verbatim>\<open>fileinfos[offset:]\<close> into the buffer (a
  negative offset panics) and answers \<^verbatim>\<open>io.EOF\<close> when the buffer is not filled.
\<close>

definition DirFs_lister :: "FileInfo list \<Rightarrow> lister" where
  "DirFs_lister fileinfos n offset =
     (if int (length fileinfos) \<le> offset then Return ([], Some EOF)
      else if offset < 0 then Panic
      else
        (let written = take n (drop (nat offset) fileinfos)
         in if length written < n then Return (written, Some EOF)
            else Return (written, None)))"

subsection \<open>What a filtered listing should deliver\<close>

text \<open>
  An entry of the directory listed at \<open>path\<close> is visible when its full virtual path,
  \<^verbatim>\<open>filepath.Join(path, name)\<close>, matches no hide expression; the listing a client
  should see is the inner listing without the entries that are not visible.
  \<open>known\<close> is the invariant of the closure's variables over a directory \<open>L\<close>: every
  recorded index is the index of a hidden entry, and every hidden entry below \<open>K\<close> is
  recorded.
\<close>

definition visible :: "'i PermWrapperFS \<Rightarrow> string \<Rightarrow> FileInfo \<Rightarrow> bool" where
  "visible p path e = (\<not> PermWrapperFS_ShouldHide p (Join path (Name e)))"

definition visibleOf :: "'i PermWrapperFS \<Rightarrow> string \<Rightarrow> FileInfo list \<Rightarrow> FileInfo list" where
  "visibleOf p path fileinfos = filter (visible p path) fileinfos"

definition known :: "'i PermWrapperFS \<Rightarrow> string \<Rightarrow> FileInfo list \<Rightarrow> nat \<Rightarrow> listState \<Rightarrow> bool" where
  "known p path L K st =
     (set (idxToHide st) \<subseteq> {int x |x. x < length L \<and> \<not> visible p path (L ! x)} \<and>
      (\<forall>x<K. \<not> visible p path (L ! x) \<longrightarrow> int x \<in> set (idxToHide st)))"

section \<open>The empty mount\<close>

text \<open>\<^verbatim>\<open>topDirPath(name)\<close>, the file information of a virtual directory: size 480, mode
  \<^verbatim>\<open>0755 | os.ModeDir\<close> (octal 755 is 493, the directory bit is bit 31), modified on
  20 March 2022 (UTC, here in Unix seconds).\<close>

definition topDirPath :: "string \<Rightarrow> FileInfo" where
  "topDirPath t = \<lparr>Name = t, Size = 480, Mode = 493 OR push_bit 31 1,
     ModTime = 1647734400, IsDir = True\<rparr>"

definition EmptyFS_statLike :: "string \<Rightarrow> 's \<Rightarrow> (error + FileInfo) \<times> 's" where
  "EmptyFS_statLike path s =
     (if path = ''/'' then (Inr (topDirPath ''/''), s) else (Inl ErrInvalid, s))"

definition EmptyFS :: "('s, lister, 'rd, 'wr) SimplifiedFS" where
  "EmptyFS = \<lparr>
     fsList = (\<lambda>path s. (Inr (\<lambda>n i. Return ([], Some EOF)), s)),
     fsLstat = EmptyFS_statLike,
     fsStat = EmptyFS_statLike,
     fsReadLink = EmptyFS_statLike,
     fsRead = (\<lambda>path s. (Inl ErrNotExist, s)),
     fsWrite = (\<lambda>path s. (Inl ErrPermission, s)),
     fsSetStat = (\<lambda>path flags attributes s. (Some ErrPermission, s)),
     fsRename = (\<lambda>src dst s. (Some ErrPermission, s)),
     fsRmdir = (\<lambda>path s. (Some ErrPermission, s)),
     fsRm = (\<lambda>path s. (Some ErrPermission, s)),
     fsMkdir = (\<lambda>path s. (Some ErrPermission, s)),
     fsLink = (\<lambda>src dst s. (Some ErrPermission, s)),
     fsSymlink = (\<lambda>src dst s. (Some ErrPermission, s))\<rparr>"

section \<open>The union mount\<close>

text \<open>
  \<^verbatim>\<open>CombinedFS\<close>.  \<open>Dirs\<close> is the Go map as the list of its entries in the order a
  \<^verbatim>\<open>range\<close> over it visits them; Go leaves that order open, and the statements below
  hold for every list.  \<open>logging\<close> is \<open>None\<close> for the nil logger.
\<close>

datatype logger = Logger

record 'i CombinedFS =
  Dirs :: "(string \<times> 'i) list"
  logging :: "logger option"

fun extractLoop :: "(string \<times> 'i) list \<Rightarrow> string \<Rightarrow> (error + string \<times> 'i) outcome" where
  "extractLoop [] path = Return (Inl ErrNotExist)"
| "extractLoop ((name, sfs) # dirs) path =
     (if length name \<le> length path \<and> take (length name) path = name then
        (let rest = drop (length name) path;
             subpath = (if length rest = 0 then ''/'' else rest)
         in if hd subpath = CHR ''/'' then Return (Inr (subpath, sfs))
            else extractLoop dirs path)
      else extractLoop dirs path)"

text \<open>\<^verbatim>\<open>Extract\<close> reads \<^verbatim>\<open>path[0]\<close> first: the empty path panics.\<close>

definition Extract :: "'i CombinedFS \<Rightarrow> string \<Rightarrow> (error + string \<times> 'i) outcome" where
  "Extract c path =
     (case path of
        [] \<Rightarrow> Panic
      | ch # rest \<Rightarrow> extractLoop (Dirs c) (if ch = CHR ''/'' then rest else path))"

definition minInt64 :: "int \<Rightarrow> int \<Rightarrow> int" where
  "minInt64 a b = (if a < b then a else b)"

subsection \<open>The listing of the virtual root\<close>

text \<open>
  The loop of the closure that \<^verbatim>\<open>List("/")\<close> returns: entry \<open>i\<close> of the buffer becomes
  the \<^verbatim>\<open>Stat("/")\<close> of the mount named \<^verbatim>\<open>topDirs[int(offset)+i]\<close>, renamed to the mount
  name.  An index out of range panics; a failing \<^verbatim>\<open>Stat\<close> is logged (a call on the
  nil logger panics) and ends the call with count 0.  The result of a call is the
  returned count, the entries written and the error.
\<close>

function rootLoop ::
  "('i \<Rightarrow> ('s, 'l, 'rd, 'wr) SimplifiedFS) \<Rightarrow> 'i CombinedFS \<Rightarrow> string list \<Rightarrow> nat \<Rightarrow> int \<Rightarrow> int
    \<Rightarrow> int \<Rightarrow> FileInfo list \<Rightarrow> 's \<Rightarrow> (FileInfo list + error) outcome \<times> 's" where
  "rootLoop methods c topDirs n offset remaining i written s =
     (if i < remaining then
        (if offset + i < 0 \<or> int (length topDirs) \<le> offset + i then (Panic, s)
         else
           (let dirname = topDirs ! nat (offset + i) in
            case map_of (Dirs c) dirname of
              None \<Rightarrow> (Panic, s)
            | Some sfs \<Rightarrow>
                (case fsStat (methods sfs) ''/'' s of
                   (Inl err, s') \<Rightarrow>
                     (case logging c of
                        None \<Rightarrow> (Panic, s')
                      | Some lg \<Rightarrow> (Return (Inr err), s'))
                 | (Inr stat, s') \<Rightarrow>
                     if int n \<le> i then (Panic, s')
                     else rootLoop methods c topDirs n offset remaining (i + 1)
                            (written @ [renamedFileInfo stat dirname]) s')))
      else (Return (Inl written), s))"
  by pat_completeness auto
termination
  by (relation "measure (\<lambda>(methods, c, topDirs, n, offset, remaining, i, written, s).
        nat (remaining - i))") auto

declare rootLoop.simps [simp del]

definition CombinedFS_rootLister ::
  "('i \<Rightarrow> ('s, 'l, 'rd, 'wr) SimplifiedFS) \<Rightarrow> 'i CombinedFS \<Rightarrow> nat \<Rightarrow> int \<Rightarrow> 's
    \<Rightarrow> (int \<times> FileInfo list \<times> error option) outcome \<times> 's" where
  "CombinedFS_rootLister methods c n offset s =
     (let topDirs = sort (map fst (Dirs c)) in
      if int (length topDirs) \<le> offset then (Return (0, [], Some EOF), s)
      else
        (let remaining = minInt64 (int (length topDirs) - offset) (int n - offset) in
         case rootLoop methods c topDirs n offset remaining 0 [] s of
           (Panic, s') \<Rightarrow> (Panic, s')
         | (Return (Inr err), s') \<Rightarrow> (Return (0, [], Some err), s')
         | (Return (Inl written), s') \<Rightarrow>
             if offset + remaining = int (length topDirs)
             then (Return (remaining, written, Some EOF), s')
             else (Return (remaining, written, None), s')))"

text \<open>
  The wrapper below a permission wrapper sees the closure as a function of the buffer
  length and the offset.  \<open>CombinedFS_rootListerAt\<close> is the closure in a world that
  stays as it is, \<open>s\<close> at every call: the entries written and the error of the call.
  The count a call returns is the number of entries written except where the buffer
  is shorter than the offset (then it is negative).
\<close>

definition CombinedFS_rootListerAt ::
  "('i \<Rightarrow> ('s, 'l, 'rd, 'wr) SimplifiedFS) \<Rightarrow> 'i CombinedFS \<Rightarrow> 's \<Rightarrow> lister" where
  "CombinedFS_rootListerAt methods c s n offset =
     (case fst (CombinedFS_rootLister methods c n offset s) of
        Panic \<Rightarrow> Panic
      | Return (count, written, err) \<Rightarrow> Return (written, err))"

text \<open>\<^verbatim>\<open>CombinedFS.List\<close>: the closure above for the root, else the \<^verbatim>\<open>List\<close> of the mount
  the path resolves to.\<close>

definition CombinedFS_List ::
  "('i \<Rightarrow> ('s, lister, 'rd, 'wr) SimplifiedFS) \<Rightarrow> 'i CombinedFS \<Rightarrow> string \<Rightarrow> 's
    \<Rightarrow> ((error + lister) \<times> 's) outcome" where
  "CombinedFS_List methods c path s =
     (if path = ''/'' then Return (Inr (CombinedFS_rootListerAt methods c s), s)
      else
        (case Extract c path of
           Panic \<Rightarrow> Panic
         | Return (Inl err) \<Rightarrow> Return (Inl err, s)
         | Return (Inr (subpath, sfs)) \<Rightarrow> Return (fsList (methods sfs) subpath s)))"

subsection \<open>Operations that change the tree\<close>

definition CombinedFS_Rmdir ::
  "('i \<Rightarrow> ('s, 'l, 'rd, 'wr) SimplifiedFS) \<Rightarrow> 'i CombinedFS \<Rightarrow> string \<Rightarrow> 's
    \<Rightarrow> (error option \<times> 's) outcome" where
  "CombinedFS_Rmdir methods c path s =
     (if path = ''/'' then Return (Some ErrPermission, s)
      else
        (case Extract c path of
           Panic \<Rightarrow> Panic
         | Return (Inl err) \<Rightarrow> Return (Some err, s)
         | Return (Inr (subpath, sfs)) \<Rightarrow>
             if subpath = ''/'' then Return (Some ErrPermission, s)
             else Return (fsRmdir (methods sfs) subpath s)))"

definition CombinedFS_Rm ::
  "('i \<Rightarrow> ('s, 'l, 'rd, 'wr) SimplifiedFS) \<Rightarrow> 'i CombinedFS \<Rightarrow> string \<Rightarrow> 's
    \<Rightarrow> (error option \<times> 's) outcome" where
  "CombinedFS_Rm methods c path s =
     (if path = ''/'' then Return (Some ErrPermission, s)
      else
        (case Extract c path of
           Panic \<Rightarrow> Panic
         | Return (Inl err) \<Rightarrow> Return (Some err, s)
         | Return (Inr (subpath, sfs)) \<Rightarrow>
             if subpath = ''/'' then Return (Some ErrPermission, s)
             else Return (fsRm (methods sfs) subpath s)))"

definition CombinedFS_Mkdir ::
  "('i \<Rightarrow> ('s, 'l, 'rd, 'wr) SimplifiedFS) \<Rightarrow> 'i CombinedFS \<Rightarrow> string \<Rightarrow> 's
    \<Rightarrow> (error option \<times> 's) outcome" where
  "CombinedFS_Mkdir methods c path s =
     (if path = ''/'' then Return (Some ErrPermission, s)
      else
        (case Extract c path of
           Panic \<Rightarrow> Panic
         | Return (Inl err) \<Rightarrow> Return (Some err, s)
         | Return (Inr (subpath, sfs)) \<Rightarrow>
             if subpath = ''/'' then Return (Some ErrPermission, s)
             else Return (fsMkdir (methods sfs) subpath s)))"

text \<open>
  What the cross-mount operations ask of the Go runtime and of the host: the method
  table of a mount, the comparison \<^verbatim>\<open>srcSfs == dstSfs\<close> of two interface values (it
  panics when both hold the same uncomparable type), a call of a function that
  \<^verbatim>\<open>List\<close> returned (it yields the function for the next call, and \<open>None\<close> when it does
  not return), the type assertion
  \<^verbatim>\<open>.(OsDirFS)\<close>, the host calls \<^verbatim>\<open>os.Rename\<close>, \<^verbatim>\<open>os.Link\<close>, \<^verbatim>\<open>os.Symlink\<close>, and
  \<^verbatim>\<open>ReadAt\<close> and \<^verbatim>\<open>WriteAt\<close> of the readers and writers the mounts hand out.
\<close>

type_synonym bytes = "8 word list"

record OsDirFS =
  osCanRead :: "string \<Rightarrow> bool"
  osCanWrite :: "string \<Rightarrow> bool"
  osIntoAbsPath :: "string \<Rightarrow> (error + string) outcome"

definition DirFs_OsDirFS :: "DirFs \<Rightarrow> OsDirFS" where
  "DirFs_OsDirFS d = \<lparr>osCanRead = DirFs_CanRead d, osCanWrite = DirFs_CanWrite d,
     osIntoAbsPath = IntoAbsPath d\<rparr>"

record ('i, 's, 'l, 'rd, 'wr) runtime =
  rtMethods :: "'i \<Rightarrow> ('s, 'l, 'rd, 'wr) SimplifiedFS"
  rtCallLister ::
    "'l \<Rightarrow> nat \<Rightarrow> int \<Rightarrow> 's \<Rightarrow> ((FileInfo list \<times> error option) \<times> 'l) outcome option \<times> 's"
  rtSame :: "'i \<Rightarrow> 'i \<Rightarrow> bool outcome"
  rtOsDirFS :: "'i \<Rightarrow> OsDirFS option"
  rtRename :: "string \<Rightarrow> string \<Rightarrow> 's \<Rightarrow> error option \<times> 's"
  rtLink :: "string \<Rightarrow> string \<Rightarrow> 's \<Rightarrow> error option \<times> 's"
  rtSymlink :: "string \<Rightarrow> string \<Rightarrow> 's \<Rightarrow> error option \<times> 's"
  rtReadAt :: "'rd \<Rightarrow> nat \<Rightarrow> int \<Rightarrow> 's \<Rightarrow> (bytes \<times> error option) \<times> 's"
  rtWriteAt :: "'wr \<Rightarrow> bytes \<Rightarrow> int \<Rightarrow> 's \<Rightarrow> (nat \<times> error option) \<times> 's"

subsection \<open>The copy fallback of a cross-mount rename\<close>

text \<open>\<^verbatim>\<open>readWrapper.Read\<close> and \<^verbatim>\<open>writerWrapper.Write\<close>: a positional call at the owned
  offset, which advances by the count only when the call returns no error.\<close>

definition readWrapper_Read ::
  "('i, 's, 'l, 'rd, 'wr) runtime \<Rightarrow> 'rd \<Rightarrow> int \<Rightarrow> nat \<Rightarrow> 's
    \<Rightarrow> (bytes \<times> error option) \<times> int \<times> 's" where
  "readWrapper_Read rt reader offset n s =
     (case rtReadAt rt reader n offset s of
        ((bs, err), s') \<Rightarrow>
          if err \<noteq> None then ((bs, err), offset, s')
          else ((bs, None), offset + int (length bs), s'))"

definition writerWrapper_Write ::
  "('i, 's, 'l, 'rd, 'wr) runtime \<Rightarrow> 'wr \<Rightarrow> int \<Rightarrow> bytes \<Rightarrow> 's
    \<Rightarrow> (nat \<times> error option) \<times> int \<times> 's" where
  "writerWrapper_Write rt writer offset bs s =
     (case rtWriteAt rt writer bs offset s of
        ((n, err), s') \<Rightarrow>
          if err \<noteq> None then ((n, err), offset, s')
          else ((n, None), offset + int n, s'))"

text \<open>
  \<^verbatim>\<open>io.Copy\<close> of the Go library over the two wrappers (neither has \<^verbatim>\<open>WriteTo\<close> or
  \<^verbatim>\<open>ReadFrom\<close>): read up to 32 KiB, write what was read, stop at the first write
  error, short write or read error; \<^verbatim>\<open>io.EOF\<close> from the reader ends the copy without
  an error.  A reader that never reports an error makes the loop run forever.
\<close>

definition copyBufferSize :: nat where
  "copyBufferSize = 32768"

partial_function (option) copyLoop ::
  "('i, 's, 'l, 'rd, 'wr) runtime \<Rightarrow> 'wr \<Rightarrow> int \<Rightarrow> 'rd \<Rightarrow> int \<Rightarrow> 's
    \<Rightarrow> (error option \<times> 's) option" where
  "copyLoop rt writer woff reader roff s =
     (case readWrapper_Read rt reader roff copyBufferSize s of
        ((bs, er), roff', s1) \<Rightarrow>
          if bs \<noteq> [] then
            (case writerWrapper_Write rt writer woff bs s1 of
               ((nw, ew), woff', s2) \<Rightarrow>
                 if ew \<noteq> None then Some (ew, s2)
                 else if nw \<noteq> length bs then Some (Some ErrShortWrite, s2)
                 else
                   (case er of
                      Some e \<Rightarrow> Some (if e = EOF then None else Some e, s2)
                    | None \<Rightarrow> copyLoop rt writer woff' reader roff' s2))
          else
            (case er of
               Some e \<Rightarrow> Some (if e = EOF then None else Some e, s1)
             | None \<Rightarrow> copyLoop rt writer woff reader roff' s1))"

declare copyLoop.simps [code]

definition renameFileFallback ::
  "('i, 's, 'l, 'rd, 'wr) runtime \<Rightarrow> 'i \<Rightarrow> 'i \<Rightarrow> string \<Rightarrow> string \<Rightarrow> 's
    \<Rightarrow> (error option \<times> 's) option" where
  "renameFileFallback rt srcSfs dstSfs srcPath dstPath s =
     (case fsRead (rtMethods rt srcSfs) srcPath s of
        (Inl err, s1) \<Rightarrow> Some (Some err, s1)
      | (Inr reader, s1) \<Rightarrow>
          (case fsWrite (rtMethods rt dstSfs) dstPath s1 of
             (Inl err, s2) \<Rightarrow> Some (Some err, s2)
           | (Inr writer, s2) \<Rightarrow>
               (case copyLoop rt writer 0 reader 0 s2 of
                  None \<Rightarrow> None
                | Some (Some err, s3) \<Rightarrow> Some (Some err, s3)
                | Some (None, s3) \<Rightarrow> Some (fsRm (rtMethods rt srcSfs) srcPath s3))))"

text \<open>
  \<^verbatim>\<open>renameDirectoryFallback\<close> recurses through the source tree and lists each
  directory in batches of five.  Neither the depth of the tree nor the number of
  batches is bounded by the code, so the model takes fuel: one unit per level of
  recursion and per batch; \<open>None\<close> is a run that exhausts it or whose copy does not
  return.  \<open>dirElements\<close> is the \<^verbatim>\<open>range\<close> over one batch, \<open>dirBatches\<close> the \<^verbatim>\<open>for true\<close>
  around it, which ends at a batch of zero entries.
\<close>

fun dirElements ::
  "(string \<Rightarrow> string \<Rightarrow> 's \<Rightarrow> (error option \<times> 's) outcome option)
    \<Rightarrow> (string \<Rightarrow> string \<Rightarrow> 's \<Rightarrow> (error option \<times> 's) option)
    \<Rightarrow> string \<Rightarrow> string \<Rightarrow> FileInfo list \<Rightarrow> 's \<Rightarrow> (error option \<times> 's) outcome option" where
  "dirElements recdir recfile srcPath dstPath [] s = Some (Return (None, s))"
| "dirElements recdir recfile srcPath dstPath (element # rest) s =
     (let recSrcPath = Join srcPath (Name element);
          recDstPath = Join dstPath (Name element)
      in case (if IsDir element then recdir recSrcPath recDstPath s
               else map_option Return (recfile recSrcPath recDstPath s)) of
           None \<Rightarrow> None
         | Some Panic \<Rightarrow> Some Panic
         | Some (Return (Some err, s')) \<Rightarrow> Some (Return (Some err, s'))
         | Some (Return (None, s')) \<Rightarrow> dirElements recdir recfile srcPath dstPath rest s')"

fun dirBatches ::
  "('l \<Rightarrow> nat \<Rightarrow> int \<Rightarrow> 's \<Rightarrow> ((FileInfo list \<times> error option) \<times> 'l) outcome option \<times> 's)
    \<Rightarrow> (string \<Rightarrow> string \<Rightarrow> 's \<Rightarrow> (error option \<times> 's) outcome option)
    \<Rightarrow> (string \<Rightarrow> string \<Rightarrow> 's \<Rightarrow> (error option \<times> 's) option)
    \<Rightarrow> string \<Rightarrow> string \<Rightarrow> 'l \<Rightarrow> nat \<Rightarrow> int \<Rightarrow> 's
    \<Rightarrow> (error option \<times> 's) outcome option" where
  "dirBatches call recdir recfile srcPath dstPath subdirIter 0 offset s = None"
| "dirBatches call recdir recfile srcPath dstPath subdirIter (Suc fuel) offset s =
     (case call subdirIter 5 offset s of
        (None, s0) \<Rightarrow> None
      | (Some Panic, s0) \<Rightarrow> Some Panic
      | (Some (Return ((entries, err), subdirIter')), s0) \<Rightarrow>
          if err \<noteq> None \<and> err \<noteq> Some EOF then Some (Return (err, s0))
          else if length entries = 0 then Some (Return (None, s0))
          else
            (case dirElements recdir recfile srcPath dstPath entries s0 of
               None \<Rightarrow> None
             | Some Panic \<Rightarrow> Some Panic
             | Some (Return (Some e, s')) \<Rightarrow> Some (Return (Some e, s'))
             | Some (Return (None, s')) \<Rightarrow>
                 dirBatches call recdir recfile srcPath dstPath subdirIter' fuel
                   (offset + int (length entries)) s'))"

primrec renameDirectoryFallback ::
  "nat \<Rightarrow> ('i, 's, 'l, 'rd, 'wr) runtime \<Rightarrow> 'i \<Rightarrow> 'i \<Rightarrow> string \<Rightarrow> string \<Rightarrow> 's
    \<Rightarrow> (error option \<times> 's) outcome option" where
  "renameDirectoryFallback 0 rt srcSfs dstSfs srcPath dstPath s = None"
| "renameDirectoryFallback (Suc fuel) rt srcSfs dstSfs srcPath dstPath s =
     (case fsMkdir (rtMethods rt dstSfs) dstPath s of
        (Some err, s1) \<Rightarrow> Some (Return (Some err, s1))
      | (None, s1) \<Rightarrow>
          (case fsList (rtMethods rt srcSfs) srcPath s1 of
             (Inl err, s2) \<Rightarrow> Some (Return (Some err, s2))
           | (Inr subdirIter, s2) \<Rightarrow>
               (case dirBatches (rtCallLister rt) (renameDirectoryFallback fuel rt srcSfs dstSfs)
                       (renameFileFallback rt srcSfs dstSfs) srcPath dstPath subdirIter fuel 0 s2 of
                  None \<Rightarrow> None
                | Some Panic \<Rightarrow> Some Panic
                | Some (Return (Some err, s3)) \<Rightarrow> Some (Return (Some err, s3))
                | Some (Return (None, s3)) \<Rightarrow>
                    Some (Return (fsRmdir (rtMethods rt srcSfs) srcPath s3)))))"

text \<open>The part of \<^verbatim>\<open>Rename\<close> after the same-mount and native-directory cases.\<close>

definition renameFallback ::
  "nat \<Rightarrow> ('i, 's, 'l, 'rd, 'wr) runtime \<Rightarrow> 'i \<Rightarrow> 'i \<Rightarrow> string \<Rightarrow> string \<Rightarrow> 's
    \<Rightarrow> (error option \<times> 's) outcome option" where
  "renameFallback fuel rt srcSfs dstSfs subSrc subDst s =
     (case fsStat (rtMethods rt srcSfs) subSrc s of
        (Inl err, s1) \<Rightarrow> Some (Return (Some err, s1))
      | (Inr srcStat, s1) \<Rightarrow>
          (case fsStat (rtMethods rt dstSfs) subDst s1 of
             (Inr dstStat, s2) \<Rightarrow> Some (Return (Some (Errorf ''target path exists''), s2))
           | (Inl err, s2) \<Rightarrow>
               if err \<noteq> ErrNotExist then Some (Return (Some err, s2))
               else if IsDir srcStat
                 then renameDirectoryFallback fuel rt srcSfs dstSfs subSrc subDst s2
               else map_option Return (renameFileFallback rt srcSfs dstSfs subSrc subDst s2)))"

definition CombinedFS_Rename ::
  "nat \<Rightarrow> ('i, 's, 'l, 'rd, 'wr) runtime \<Rightarrow> 'i CombinedFS \<Rightarrow> string \<Rightarrow> string \<Rightarrow> 's
    \<Rightarrow> (error option \<times> 's) outcome option" where
  "CombinedFS_Rename fuel rt c src dst s =
     (if src = ''/'' \<or> dst = ''/'' then Some (Return (Some ErrPermission, s))
      else if src = dst then Some (Return (None, s))
      else
        (case Extract c src of
           Panic \<Rightarrow> Some Panic
         | Return (Inl err) \<Rightarrow> Some (Return (Some err, s))
         | Return (Inr (subSrc, srcSfs)) \<Rightarrow>
             (case Extract c dst of
                Panic \<Rightarrow> Some Panic
              | Return (Inl err) \<Rightarrow> Some (Return (Some err, s))
              | Return (Inr (subDst, dstSfs)) \<Rightarrow>
                  if subSrc = ''/'' \<or> subDst = ''/'' then Some (Return (Some ErrInvalid, s))
                  else
                    (case rtSame rt srcSfs dstSfs of
                       Panic \<Rightarrow> Some Panic
                     | Return True \<Rightarrow> Some (Return (fsRename (rtMethods rt srcSfs) subSrc subDst s))
                     | Return False \<Rightarrow>
                         (case (rtOsDirFS rt srcSfs, rtOsDirFS rt dstSfs) of
                            (Some srcDirFs, Some dstDirFs) \<Rightarrow>
                              (case osIntoAbsPath srcDirFs subSrc of
                                 Panic \<Rightarrow> Some Panic
                               | Return (Inl err) \<Rightarrow> Some (Return (Some err, s))
                               | Return (Inr absSrc) \<Rightarrow>
                                   (case osIntoAbsPath dstDirFs subDst of
                                      Panic \<Rightarrow> Some Panic
                                    | Return (Inl err) \<Rightarrow> Some (Return (Some err, s))
                                    | Return (Inr absDst) \<Rightarrow>
                                        if \<not> osCanWrite srcDirFs absSrc \<or> \<not> osCanWrite dstDirFs absDst
                                        then Some (Return (Some ErrForbidden, s))
                                        else Some (Return (rtRename rt absSrc absDst s))))
                          | _ \<Rightarrow> renameFallback fuel rt srcSfs dstSfs subSrc subDst s)))))"

text \<open>\<^verbatim>\<open>Link\<close> and \<^verbatim>\<open>Symlink\<close>.  In the native-directory case both host paths come from
  the source mount (\<^verbatim>\<open>srcDirFs.IntoAbsPath(subDst)\<close>), as the code has it.\<close>

definition linkLike ::
  "(('s, 'l, 'rd, 'wr) SimplifiedFS \<Rightarrow> string \<Rightarrow> string \<Rightarrow> 's \<Rightarrow> error option \<times> 's)
    \<Rightarrow> (string \<Rightarrow> string \<Rightarrow> 's \<Rightarrow> error option \<times> 's) \<Rightarrow> string
    \<Rightarrow> ('i, 's, 'l, 'rd, 'wr) runtime \<Rightarrow> 'i CombinedFS \<Rightarrow> string \<Rightarrow> string \<Rightarrow> 's
    \<Rightarrow> (error option \<times> 's) outcome" where
  "linkLike method hostCall message rt c src dst s =
     (if src = ''/'' \<or> dst = ''/'' then Return (Some ErrPermission, s)
      else
        (case Extract c src of
           Panic \<Rightarrow> Panic
         | Return (Inl err) \<Rightarrow> Return (Some err, s)
         | Return (Inr (subSrc, srcSfs)) \<Rightarrow>
             (case Extract c dst of
                Panic \<Rightarrow> Panic
              | Return (Inl err) \<Rightarrow> Return (Some err, s)
              | Return (Inr (subDst, dstSfs)) \<Rightarrow>
                  if subSrc = ''/'' \<or> subDst = ''/'' then Return (Some ErrPermission, s)
                  else
                    (case rtSame rt srcSfs dstSfs of
                       Panic \<Rightarrow> Panic
                     | Return True \<Rightarrow> Return (method (rtMethods rt srcSfs) subSrc subDst s)
                     | Return False \<Rightarrow>
                         (case (rtOsDirFS rt srcSfs, rtOsDirFS rt dstSfs) of
                            (Some srcDirFs, Some dstDirFs) \<Rightarrow>
                              (case osIntoAbsPath srcDirFs subSrc of
                                 Panic \<Rightarrow> Panic
                               | Return (Inl err) \<Rightarrow> Return (Some err, s)
                               | Return (Inr absSrc) \<Rightarrow>
                                   (case osIntoAbsPath srcDirFs subDst of
                                      Panic \<Rightarrow> Panic
                                    | Return (Inl err) \<Rightarrow> Return (Some err, s)
                                    | Return (Inr absDst) \<Rightarrow>
                                        if \<not> osCanWrite srcDirFs absSrc \<or> \<not> osCanWrite dstDirFs absDst
                                        then Return (Some ErrForbidden, s)
                                        else Return (hostCall absSrc absDst s)))
                          | _ \<Rightarrow> Return (Some (Errorf message), s))))))"

definition CombinedFS_Link ::
  "('i, 's, 'l, 'rd, 'wr) runtime \<Rightarrow> 'i CombinedFS \<Rightarrow> string \<Rightarrow> string \<Rightarrow> 's
    \<Rightarrow> (error option \<times> 's) outcome" where
  "CombinedFS_Link rt c src dst s =
     linkLike fsLink (rtLink rt) ''cannot link between different file systems'' rt c src dst s"

definition CombinedFS_Symlink ::
  "('i, 's, 'l, 'rd, 'wr) runtime \<Rightarrow> 'i CombinedFS \<Rightarrow> string \<Rightarrow> string \<Rightarrow> 's
    \<Rightarrow> (error option \<times> 's) outcome" where
  "CombinedFS_Symlink rt c src dst s =
     linkLike fsSymlink (rtSymlink rt) ''cannot symlink between different file systems''
       rt c src dst s"

subsection \<open>What the copy fallback asks of the inner mounts\<close>

text \<open>
  \<^verbatim>\<open>renameFileFallback\<close> reaches the files only through the interface methods and the
  \<^verbatim>\<open>ReadAt\<close> and \<^verbatim>\<open>WriteAt\<close> of the handles they return.  What the copy leaves behind
  therefore depends on what these calls do.  A \<open>storeView\<close> reads a world state as a
  table of regular files: \<open>locOf\<close> is the file a path of a mount names (two mounts
  may name the same file), \<open>contentAt\<close> its bytes, or \<open>None\<close> where there is no regular
  file, \<open>readerLoc\<close> and \<open>writerLoc\<close> the file a handle is open on.  The predicates
  below say, call by call, that the mounts of a runtime behave as such a table:

    \<^item> \<open>sameIsEquality\<close>: the \<^verbatim>\<open>==\<close> of two mounts, where it does not panic, is equality;
    \<^item> \<open>statContract\<close>: \<^verbatim>\<open>Stat\<close> changes nothing, reports a non-directory only where a
      regular file is, and \<^verbatim>\<open>os.ErrNotExist\<close> only where none is;
    \<^item> \<open>openContract\<close>: a successful \<^verbatim>\<open>Read\<close> changes nothing and opens the named file;
    \<^item> \<open>readAtContract\<close>: \<^verbatim>\<open>ReadAt\<close> changes nothing; with no error it fills the buffer
      from the offset, with \<^verbatim>\<open>io.EOF\<close> it returns all that is left of the file;
    \<^item> \<open>createContract\<close>: a successful \<^verbatim>\<open>Write\<close> opens the named file, creates it empty
      where it was missing (\<^verbatim>\<open>O_WRONLY|O_CREATE\<close>, no truncation) and touches no other;
    \<^item> \<open>writeAtContract\<close>: a complete \<^verbatim>\<open>WriteAt\<close> overwrites the bytes from the offset on
      (\<open>overwrite\<close>, zero-filling a gap) and touches no other file;
    \<^item> \<open>removeContract\<close>: a successful \<^verbatim>\<open>Rm\<close> removes the named file and no other.

  Calls that return an error are left unconstrained.
\<close>

record ('i, 's, 'rd, 'wr, 'loc) storeView =
  locOf :: "'i \<Rightarrow> string \<Rightarrow> 'loc"
  contentAt :: "'loc \<Rightarrow> 's \<Rightarrow> bytes option"
  readerLoc :: "'rd \<Rightarrow> 'loc"
  writerLoc :: "'wr \<Rightarrow> 'loc"

definition overwrite :: "bytes \<Rightarrow> nat \<Rightarrow> bytes \<Rightarrow> bytes" where
  "overwrite old off chunk =
     take off old @ replicate (off - length old) 0 @ chunk @ drop (off + length chunk) old"

definition sameIsEquality :: "('i, 's, 'l, 'rd, 'wr) runtime \<Rightarrow> bool" where
  "sameIsEquality rt = (\<forall>a b r. rtSame rt a b = Return r \<longrightarrow> r = (a = b))"

definition statContract ::
  "('i, 's, 'l, 'rd, 'wr) runtime \<Rightarrow> ('i, 's, 'rd, 'wr, 'loc) storeView \<Rightarrow> bool" where
  "statContract rt v =
     (\<forall>m p s r s'. fsStat (rtMethods rt m) p s = (r, s') \<longrightarrow>
        s' = s \<and>
        (\<forall>st. r = Inr st \<and> \<not> IsDir st \<longrightarrow> contentAt v (locOf v m p) s \<noteq> None) \<and>
        (r = Inl ErrNotExist \<longrightarrow> contentAt v (locOf v m p) s = None))"

definition openContract ::
  "('i, 's, 'l, 'rd, 'wr) runtime \<Rightarrow> ('i, 's, 'rd, 'wr, 'loc) storeView \<Rightarrow> bool" where
  "openContract rt v =
     (\<forall>m p s rd s'. fsRead (rtMethods rt m) p s = (Inr rd, s') \<longrightarrow>
         s' = s \<and> readerLoc v rd = locOf v m p)"

definition readAtContract ::
  "('i, 's, 'l, 'rd, 'wr) runtime \<Rightarrow> ('i, 's, 'rd, 'wr, 'loc) storeView \<Rightarrow> bool" where
  "readAtContract rt v =
     (\<forall>rd n off s chunk err s' bs.
         rtReadAt rt rd n off s = ((chunk, err), s') \<and> 0 \<le> off \<and>
         contentAt v (readerLoc v rd) s = Some bs \<longrightarrow>
           s' = s \<and>
           (err = None \<or> err = Some EOF \<longrightarrow> chunk = take n (drop (nat off) bs)) \<and>
           (err = None \<longrightarrow> length chunk = n) \<and>
           (err = Some EOF \<longrightarrow> length bs \<le> nat off + length chunk))"

definition createContract ::
  "('i, 's, 'l, 'rd, 'wr) runtime \<Rightarrow> ('i, 's, 'rd, 'wr, 'loc) storeView \<Rightarrow> bool" where
  "createContract rt v =
     (\<forall>m p s wr s'. fsWrite (rtMethods rt m) p s = (Inr wr, s') \<longrightarrow>
         writerLoc v wr = locOf v m p \<and>
         contentAt v (locOf v m p) s' =
           Some (case contentAt v (locOf v m p) s of None \<Rightarrow> [] | Some bs \<Rightarrow> bs) \<and>
         (\<forall>l. l \<noteq> locOf v m p \<longrightarrow> contentAt v l s' = contentAt v l s))"

definition writeAtContract ::
  "('i, 's, 'l, 'rd, 'wr) runtime \<Rightarrow> ('i, 's, 'rd, 'wr, 'loc) storeView \<Rightarrow> bool" where
  "writeAtContract rt v =
     (\<forall>wr chunk off s k s' old.
         rtWriteAt rt wr chunk off s = ((k, None), s') \<and> 0 \<le> off \<and> k = length chunk \<and>
         contentAt v (writerLoc v wr) s = Some old \<longrightarrow>
           contentAt v (writerLoc v wr) s' = Some (overwrite old (nat off) chunk) \<and>
           (\<forall>l. l \<noteq> writerLoc v wr \<longrightarrow> contentAt v l s' = contentAt v l s))"

definition removeContract ::
  "('i, 's, 'l, 'rd, 'wr) runtime \<Rightarrow> ('i, 's, 'rd, 'wr, 'loc) storeView \<Rightarrow> bool" where
  "removeContract rt v =
     (\<forall>m p s s'. fsRm (rtMethods rt m) p s = (None, s') \<longrightarrow>
        contentAt v (locOf v m p) s' = None \<and>
        (\<forall>l. l \<noteq> locOf v m p \<longrightarrow> contentAt v l s' = contentAt v l s))"

definition fileStore ::
  "('i, 's, 'l, 'rd, 'wr) runtime \<Rightarrow> ('i, 's, 'rd, 'wr, 'loc) storeView \<Rightarrow> bool" where
  "fileStore rt v =
     (sameIsEquality rt \<and> statContract rt v \<and> openContract rt v \<and> readAtContract rt v \<and>
      createContract rt v \<and> writeAtContract rt v \<and> removeContract rt v)"

section \<open>The WebDAV file handles\<close>

text \<open>
  The open flags of package \<^verbatim>\<open>os\<close> (Linux values; \<^verbatim>\<open>O_RDONLY\<close> is 0 on every
  platform Go supports).  A flag word is a Go \<^verbatim>\<open>int\<close>.
\<close>

definition O_RDONLY :: "64 word" where "O_RDONLY = 0"
definition O_WRONLY :: "64 word" where "O_WRONLY = 1"
definition O_RDWR :: "64 word" where "O_RDWR = 2"
definition O_CREATE :: "64 word" where "O_CREATE = 64"

record ('i, 'rd, 'wr) webdavReadWriteFile =
  rwFs :: 'i
  rwFilename :: string
  rwReader :: "'rd option"
  rwWriter :: "'wr option"
  rwOffset :: int
  rwStat :: "FileInfo option"

record ('i, 'wr) webdavWriteFile =
  wFs :: 'i
  wFilename :: string
  wInner :: "'wr option"
  wStat :: "FileInfo option"
  wOffset :: int

record ('i, 'rd) webdavReadFile =
  rFs :: 'i
  rFilename :: string
  rInner :: "'rd option"
  rOffset :: int
  rStat :: "FileInfo option"

datatype ('i, 'rd, 'wr) webdavFile =
    ReadWriteFile "('i, 'rd, 'wr) webdavReadWriteFile"
  | WriteFile "('i, 'wr) webdavWriteFile"
  | ReadFile "('i, 'rd) webdavReadFile"

text \<open>\<^verbatim>\<open>fileSystemWrapper.OpenFile\<close>; \<open>inner\<close> is the field of the wrapper.  In Go
  \<^verbatim>\<open>&&\<close> binds tighter than \<^verbatim>\<open>||\<close>.\<close>

definition OpenFile ::
  "('i \<Rightarrow> ('s, 'l, 'rd, 'wr) SimplifiedFS) \<Rightarrow> 'i \<Rightarrow> string \<Rightarrow> 64 word \<Rightarrow> 's
    \<Rightarrow> (error + ('i, 'rd, 'wr) webdavFile) \<times> 's" where
  "OpenFile methods inner name flag s =
     (if ((flag AND O_CREATE = O_CREATE \<or> flag AND O_WRONLY = O_WRONLY)
            \<and> flag AND O_RDONLY = O_RDONLY)
          \<or> flag AND O_RDWR = O_RDWR
      then (Inr (ReadWriteFile \<lparr>rwFs = inner, rwFilename = name, rwReader = None,
                   rwWriter = None, rwOffset = 0, rwStat = None\<rparr>), s)
      else if flag AND O_CREATE = O_CREATE \<or> flag AND O_WRONLY = O_WRONLY
      then (Inr (WriteFile \<lparr>wFs = inner, wFilename = name, wInner = None, wStat = None,
                   wOffset = 0\<rparr>), s)
      else
        (case fsRead (methods inner) name s of
           (Inl err, s') \<Rightarrow> (Inl err, s')
         | (Inr reader, s') \<Rightarrow>
             (Inr (ReadFile \<lparr>rFs = inner, rFilename = name, rInner = Some reader,
                     rOffset = 0, rStat = None\<rparr>), s')))"

text \<open>The methods of the handles that refuse: each returns a zero count, or no
  entries, with \<^verbatim>\<open>os.ErrPermission\<close>.\<close>

definition webdavReadFile_Write :: "('i, 'rd) webdavReadFile \<Rightarrow> bytes \<Rightarrow> int \<times> error option" where
  "webdavReadFile_Write w p = (0, Some ErrPermission)"

definition webdavWriteFile_Read :: "('i, 'wr) webdavWriteFile \<Rightarrow> nat \<Rightarrow> int \<times> error option" where
  "webdavWriteFile_Read w n = (0, Some ErrPermission)"

definition webdavWriteFile_Readdir ::
  "('i, 'wr) webdavWriteFile \<Rightarrow> int \<Rightarrow> FileInfo list \<times> error option" where
  "webdavWriteFile_Readdir w count = ([], Some ErrPermission)"

section \<open>Building the file system of a user\<close>

record SFTPEntry =
  entryRoot :: string
  entryReadOnly :: bool

text \<open>\<open>Filesystem\<close> is the table of the configuration as the list of its entries;
  \<open>map_of\<close> looks a key up.\<close>

record UserEntry =
  AuthorizedKeys :: "string list"
  Filesystem :: "(string \<times> SFTPEntry) list"
  CanRead :: "string list"
  CanWrite :: "string list"
  ShouldHide :: "string list"
  WebDav :: bool

datatype baseFS =
    BaseDirFs DirFs
  | BaseCombinedFS "DirFs CombinedFS"

definition createFSWithoutPermission :: "UserEntry \<Rightarrow> baseFS" where
  "createFSWithoutPermission userEntry =
     (case map_of (Filesystem userEntry) [] of
        Some entry \<Rightarrow> BaseDirFs \<lparr>Root = entryRoot entry, Readonly = entryReadOnly entry\<rparr>
      | None \<Rightarrow>
          BaseCombinedFS
            \<lparr>Dirs = map (\<lambda>(path, entry).
                       (path, \<lparr>Root = entryRoot entry, Readonly = entryReadOnly entry\<rparr>))
                     (Filesystem userEntry),
             logging = None\<rparr>)"

text \<open>\<^verbatim>\<open>intoRegexp\<close>; \<open>compile\<close> is \<^verbatim>\<open>regexp.Compile\<close>, which returns a compiled
  expression or an error.\<close>

fun intoRegexp :: "(string \<Rightarrow> error + Regexp) \<Rightarrow> string list \<Rightarrow> error + Regexp list" where
  "intoRegexp compile [] = Inr []"
| "intoRegexp compile (exp # array) =
     (case compile exp of
        Inl err \<Rightarrow> Inl err
      | Inr rexp \<Rightarrow>
          (case intoRegexp compile array of
             Inl err \<Rightarrow> Inl err
           | Inr res \<Rightarrow> Inr (rexp # res)))"

datatype createdFS =
    Bare baseFS
  | Wrapped "baseFS PermWrapperFS"

definition CreateFS ::
  "(string \<Rightarrow> error + Regexp) \<Rightarrow> (string \<rightharpoonup> UserEntry) \<Rightarrow> string \<Rightarrow> error + createdFS" where
  "CreateFS compile users username =
     (case users username of
        None \<Rightarrow> Inl (Errorf (''user '' @ username @ '' has no config entry''))
      | Some userEntry \<Rightarrow>
          (let fs = createFSWithoutPermission userEntry in
           if length (ShouldHide userEntry) = 0 \<and> length (CanRead userEntry) = 0
              \<and> length (CanWrite userEntry) = 0
           then Inr (Bare fs)
           else
             (case intoRegexp compile (CanRead userEntry) of
                Inl err \<Rightarrow> Inl err
              | Inr canReadRegexp \<Rightarrow>
                  (case intoRegexp compile (CanWrite userEntry) of
                     Inl err \<Rightarrow> Inl err
                   | Inr canWriteRegexp \<Rightarrow>
                       (case intoRegexp compile (ShouldHide userEntry) of
                          Inl err \<Rightarrow> Inl err
                        | Inr shouldHideRegexp \<Rightarrow>
                            Inr (Wrapped \<lparr>Inner = fs, CanReadRegexp = canReadRegexp,
                                   CanWriteRegexp = canWriteRegexp,
                                   ShouldHideRegexp = shouldHideRegexp\<rparr>))))))"

section \<open>Instances used to exercise the model\<close>

text \<open>
  \<open>counted m\<close> is the method table \<open>m\<close> with a counter added to the state: every
  method call increments it, so a state with an unchanged counter shows that no
  method of the mount was called.
\<close>

definition counted :: "('s, 'l, 'rd, 'wr) SimplifiedFS \<Rightarrow> ('s \<times> nat, 'l, 'rd, 'wr) SimplifiedFS" where
  "counted m = \<lparr>
     fsList = (\<lambda>path (s, k). case fsList m path s of (r, s') \<Rightarrow> (r, (s', Suc k))),
     fsLstat = (\<lambda>path (s, k). case fsLstat m path s of (r, s') \<Rightarrow> (r, (s', Suc k))),
     fsStat = (\<lambda>path (s, k). case fsStat m path s of (r, s') \<Rightarrow> (r, (s', Suc k))),
     fsReadLink = (\<lambda>path (s, k). case fsReadLink m path s of (r, s') \<Rightarrow> (r, (s', Suc k))),
     fsRead = (\<lambda>path (s, k). case fsRead m path s of (r, s') \<Rightarrow> (r, (s', Suc k))),
     fsWrite = (\<lambda>path (s, k). case fsWrite m path s of (r, s') \<Rightarrow> (r, (s', Suc k))),
     fsSetStat = (\<lambda>path flags attributes (s, k).
        case fsSetStat m path flags attributes s of (r, s') \<Rightarrow> (r, (s', Suc k))),
     fsRename = (\<lambda>src dst (s, k). case fsRename m src dst s of (r, s') \<Rightarrow> (r, (s', Suc k))),
     fsRmdir = (\<lambda>path (s, k). case fsRmdir m path s of (r, s') \<Rightarrow> (r, (s', Suc k))),
     fsRm = (\<lambda>path (s, k). case fsRm m path s of (r, s') \<Rightarrow> (r, (s', Suc k))),
     fsMkdir = (\<lambda>path (s, k). case fsMkdir m path s of (r, s') \<Rightarrow> (r, (s', Suc k))),
     fsLink = (\<lambda>src dst (s, k). case fsLink m src dst s of (r, s') \<Rightarrow> (r, (s', Suc k))),
     fsSymlink = (\<lambda>src dst (s, k). case fsSymlink m src dst s of (r, s') \<Rightarrow> (r, (s', Suc k)))\<rparr>"

text \<open>A policy in the manner of scenario S3: everything may be read and written,
  paths that begin with \<^verbatim>\<open>/secret\<close> are hidden; its inner mount is the empty mount
  with a call counter.\<close>

definition secretPolicy :: "unit PermWrapperFS" where
  "secretPolicy = \<lparr>Inner = (), CanReadRegexp = [\<lambda>path. True], CanWriteRegexp = [\<lambda>path. True],
     ShouldHideRegexp = [\<lambda>path. take (length ''/secret'') path = ''/secret'']\<rparr>"

definition countedEmptyMount :: "unit \<Rightarrow> (unit \<times> nat, lister, unit, unit) SimplifiedFS" where
  "countedEmptyMount i = counted EmptyFS"

text \<open>A stand-in for \<^verbatim>\<open>regexp.Compile\<close> that accepts every expression and reads it as
  a literal prefix, and a user with hide expressions only.\<close>

definition prefixCompile :: "string \<Rightarrow> error + Regexp" where
  "prefixCompile exp = Inr (\<lambda>path. take (length exp) path = exp)"

definition hideOnlyUser :: UserEntry where
  "hideOnlyUser = \<lparr>AuthorizedKeys = [],
      Filesystem = [([], \<lparr>entryRoot = ''/srv'', entryReadOnly = False\<rparr>)],
      CanRead = [], CanWrite = [], ShouldHide = [''/secret''], WebDav = False\<rparr>"

text \<open>A directory \<^verbatim>\<open>/d\<close> with four plain files, a policy that hides the paths beginning
  with \<^verbatim>\<open>/d/h\<close>, and a mount whose \<^verbatim>\<open>List\<close> returns the closure of \<^verbatim>\<open>DirFs.List\<close> over
  that directory.\<close>

definition plainFile :: "string \<Rightarrow> FileInfo" where
  "plainFile name = \<lparr>Name = name, Size = 0, Mode = 420, ModTime = 0, IsDir = False\<rparr>"

definition sampleDir :: "FileInfo list" where
  "sampleDir = [plainFile ''a'', plainFile ''h1'', plainFile ''h2'', plainFile ''b'']"

definition hidePolicy :: "unit PermWrapperFS" where
  "hidePolicy = \<lparr>Inner = (), CanReadRegexp = [\<lambda>path. True], CanWriteRegexp = [],
     ShouldHideRegexp = [\<lambda>path. take 4 path = ''/d/h'']\<rparr>"

definition sampleMount :: "unit \<Rightarrow> (unit, lister, unit, unit) SimplifiedFS" where
  "sampleMount i = EmptyFS\<lparr>fsList := (\<lambda>path s. (Inr (DirFs_lister sampleDir), s))\<rparr>"

text \<open>A union of two empty mounts, with the runtime of a program all of whose mounts
  are \<^verbatim>\<open>EmptyFS{}\<close>: two such values are equal, none is a native directory, and no
  reader or writer is ever handed out.\<close>

definition emptyRuntime :: "(unit, unit, lister, unit, unit) runtime" where
  "emptyRuntime = \<lparr>
     rtMethods = (\<lambda>i. EmptyFS),
     rtCallLister = (\<lambda>l n offset s.
        (Some (case l n offset of Panic \<Rightarrow> Panic | Return r \<Rightarrow> Return (r, l)), s)),
     rtSame = (\<lambda>a b. Return True),
     rtOsDirFS = (\<lambda>i. None),
     rtRename = (\<lambda>src dst s. (Some ErrNotExist, s)),
     rtLink = (\<lambda>src dst s. (Some ErrNotExist, s)),
     rtSymlink = (\<lambda>src dst s. (Some ErrNotExist, s)),
     rtReadAt = (\<lambda>reader n offset s. (([], Some EOF), s)),
     rtWriteAt = (\<lambda>writer bs offset s. ((0, Some ErrPermission), s))\<rparr>"

definition twoMounts :: "unit CombinedFS" where
  "twoMounts = \<lparr>Dirs = [(''docs'', ()), (''pics'', ())], logging = None\<rparr>"

text \<open>
  The union behind a permission wrapper that lets every path be read and hides the
  paths that begin with \<^verbatim>\<open>/secret\<close>, as \<^verbatim>\<open>CreateFS\<close> builds it for a user with named
  mounts and a hide expression; \<open>twoMountsRoot\<close> is the closure \<^verbatim>\<open>List("/")\<close> of the union
  returns.
\<close>

definition rootGuard :: "unit CombinedFS PermWrapperFS" where
  "rootGuard = \<lparr>Inner = twoMounts, CanReadRegexp = [\<lambda>path. True], CanWriteRegexp = [],
     ShouldHideRegexp = [\<lambda>path. take 7 path = ''/secret'']\<rparr>"

definition twoMountsRoot :: lister where
  "twoMountsRoot = CombinedFS_rootListerAt (rtMethods emptyRuntime) twoMounts ()"

text \<open>
  Mounts that are no native directories, for the copy fallback: each mount is a flat
  table of regular files kept in memory, the empty mount with \<^verbatim>\<open>Stat\<close>, \<^verbatim>\<open>Read\<close>,
  \<^verbatim>\<open>Write\<close> and \<^verbatim>\<open>Rm\<close> replaced.  The world state maps a mount name and a path to the
  bytes of the file; a handle is that pair.  \<open>docsAndPics\<close> mounts the tables \<open>A\<close> and
  \<open>B\<close>, and \<open>oneFile\<close> holds three bytes at \<^verbatim>\<open>/x.txt\<close> of \<open>A\<close>.
\<close>

type_synonym tableState = "string \<times> string \<Rightarrow> bytes option"

definition tableMount ::
  "string \<Rightarrow> (tableState, lister, string \<times> string, string \<times> string) SimplifiedFS" where
  "tableMount m = EmptyFS\<lparr>
     fsStat := (\<lambda>path s.
        case s (m, path) of
          None \<Rightarrow> (Inl ErrNotExist, s)
        | Some bs \<Rightarrow> (Inr \<lparr>Name = path, Size = int (length bs), Mode = 420, ModTime = 0,
                            IsDir = False\<rparr>, s)),
     fsRead := (\<lambda>path s.
        case s (m, path) of
          None \<Rightarrow> (Inl ErrNotExist, s)
        | Some bs \<Rightarrow> (Inr (m, path), s)),
     fsWrite := (\<lambda>path s.
        case s (m, path) of
          None \<Rightarrow> (Inr (m, path), s((m, path) \<mapsto> []))
        | Some bs \<Rightarrow> (Inr (m, path), s)),
     fsRm := (\<lambda>path s.
        case s (m, path) of
          None \<Rightarrow> (Some ErrNotExist, s)
        | Some bs \<Rightarrow> (None, s((m, path) := None)))\<rparr>"

definition tableReadAt ::
  "string \<times> string \<Rightarrow> nat \<Rightarrow> int \<Rightarrow> tableState \<Rightarrow> (bytes \<times> error option) \<times> tableState" where
  "tableReadAt reader n offset s =
     (case s reader of
        None \<Rightarrow> (([], Some ErrNotExist), s)
      | Some bs \<Rightarrow>
          if offset < 0 then (([], Some ErrInvalid), s)
          else (let chunk = take n (drop (nat offset) bs)
                in ((chunk, if length chunk < n then Some EOF else None), s)))"

definition tableWriteAt ::
  "string \<times> string \<Rightarrow> bytes \<Rightarrow> int \<Rightarrow> tableState \<Rightarrow> (nat \<times> error option) \<times> tableState" where
  "tableWriteAt writer chunk offset s =
     (case s writer of
        None \<Rightarrow> ((0, Some ErrNotExist), s)
      | Some old \<Rightarrow>
          if offset < 0 then ((0, Some ErrInvalid), s)
          else ((length chunk, None), s(writer \<mapsto> overwrite old (nat offset) chunk)))"

definition tableRuntime ::
  "(string, tableState, lister, string \<times> string, string \<times> string) runtime" where
  "tableRuntime = \<lparr>
     rtMethods = tableMount,
     rtCallLister = (\<lambda>l n offset s.
        (Some (case l n offset of Panic \<Rightarrow> Panic | Return r \<Rightarrow> Return (r, l)), s)),
     rtSame = (\<lambda>a b. Return (a = b)),
     rtOsDirFS = (\<lambda>i. None),
     rtRename = (\<lambda>src dst s. (Some ErrNotExist, s)),
     rtLink = (\<lambda>src dst s. (Some ErrNotExist, s)),
     rtSymlink = (\<lambda>src dst s. (Some ErrNotExist, s)),
     rtReadAt = tableReadAt,
     rtWriteAt = tableWriteAt\<rparr>"

definition tableView ::
  "(string, tableState, string \<times> string, string \<times> string, string \<times> string) storeView" where
  "tableView = \<lparr>locOf = Pair, contentAt = (\<lambda>l s. s l), readerLoc = id, writerLoc = id\<rparr>"

definition docsAndPics :: "string CombinedFS" where
  "docsAndPics = \<lparr>Dirs = [(''docs'', ''A''), (''pics'', ''B'')], logging = None\<rparr>"

definition oneFile :: tableState where
  "oneFile = (\<lambda>l. None)((''A'', ''/x.txt'') \<mapsto> [104, 105, 10])"

section \<open>Properties of the path validator and normalizer\<close>

lemma dotSegment_no_panic: "i < length path \<Longrightarrow> dotSegment path i \<noteq> Panic"
  by (auto simp: dotSegment_def byteAt_def split: outcome.splits)

lemma dotdotSegment_no_panic:
  "i < length path \<Longrightarrow> dotSegment path i = Return False \<Longrightarrow> dotdotSegment path i \<noteq> Panic"
  by (auto simp: dotSegment_def dotdotSegment_def byteAt_def split: outcome.splits if_splits)

text \<open>Inside the string the loop never reads out of range: the second dot test is
  reached only when the first one has seen a byte after position \<open>i\<close>.\<close>

lemma validLoop_no_panic: "validLoop path i \<noteq> Panic"
proof (induction path i rule: validLoop.induct)
  case (1 path i)
  show ?case
  proof (cases "i < length path")
    case False
    then show ?thesis by (subst validLoop.simps) simp
  next
    case True
    note lt = this
    show ?thesis
    proof (cases "path ! i = CHR ''/'' \<and> 0 < i")
      case True
      with lt show ?thesis by (subst validLoop.simps) (simp add: byteAt_def)
    next
      case False
      note nosl = this
      from lt obtain b where b: "dotSegment path i = Return b"
        using dotSegment_no_panic [of i path] by (cases "dotSegment path i") auto
      show ?thesis
      proof (cases b)
        case True
        with lt nosl b show ?thesis by (subst validLoop.simps) (simp add: byteAt_def)
      next
        case False
        with b have b': "dotSegment path i = Return False" by simp
        from lt b' obtain c where c: "dotdotSegment path i = Return c"
          using dotdotSegment_no_panic [of i path] by (cases "dotdotSegment path i") auto
        show ?thesis
        proof (cases c)
          case True
          with lt nosl b' c show ?thesis by (subst validLoop.simps) (simp add: byteAt_def)
        next
          case False
          with c have c': "dotdotSegment path i = Return False" by simp
          have "validLoop path (fastForward path (i + 1)) \<noteq> Panic"
            using "1.IH" [of "path ! i" False False] lt nosl b' c'
            by (auto simp: byteAt_def)
          with lt nosl b' c' show ?thesis by (subst validLoop.simps) (simp add: byteAt_def)
        qed
      qed
    qed
  qed
qed

lemma Clean_nonempty: "Clean p \<noteq> []"
  by (simp add: Clean_def Let_def)

lemma normalizePath_no_panic: "normalizePath p \<noteq> Panic"
  using validLoop_no_panic Clean_nonempty [of p]
  by (auto simp: normalizePath_def ContainsValidDir_def byteAt_def ToSlash_def Let_def
      split: outcome.splits)

text \<open>
  Claim C10.  \<^verbatim>\<open>ContainsValidDir\<close> terminates on every input (it is a total function
  of the model); it returns a boolean exactly on the non-empty strings and panics
  (index out of range at \<^verbatim>\<open>path[0]\<close>) exactly on the empty string.  Its callers are
  \<^verbatim>\<open>normalizePath\<close>, which never passes the empty string because \<^verbatim>\<open>Clean\<close> never
  returns it, and \<^verbatim>\<open>IntoAbsPath\<close>, which passes whatever \<^verbatim>\<open>Join\<close> returns and so
  panics when both the root and the path are empty.
\<close>

theorem ContainsValidDir_panics_iff_empty:
  "(ContainsValidDir path = Panic) = (path = []) \<and>
   (\<exists>b. ContainsValidDir path = Return b) = (path \<noteq> []) \<and>
   normalizePath p \<noteq> Panic \<and>
   IntoAbsPath \<lparr>Root = [], Readonly = ro\<rparr> [] = Panic"
proof -
  have a: "(ContainsValidDir path = Panic) = (path = [])"
    using validLoop_no_panic by (cases path) (auto simp: ContainsValidDir_def byteAt_def)
  have b: "(\<exists>b. ContainsValidDir path = Return b) = (path \<noteq> [])"
    using a by (cases "ContainsValidDir path") auto
  have c: "IntoAbsPath \<lparr>Root = [], Readonly = ro\<rparr> [] = Panic"
    by (simp add: IntoAbsPath_def Join_def ToSlash_def ContainsValidDir_def byteAt_def)
  from a b c normalizePath_no_panic show ?thesis by blast
qed

text \<open>
  Claim C5, as stated, fails: \<^verbatim>\<open>normalizePath\<close> cleans the path before it validates
  it, so the \<^verbatim>\<open>..\<close> element of \<^verbatim>\<open>/a/b/../c\<close> is resolved and the path is accepted as
  \<^verbatim>\<open>/a/c\<close>.
\<close>

theorem normalizePath_dotdot_counterexample:
  "normalizePath ''/a/b/../c'' = Return (Inr ''/a/c'')"
  by code_simp

text \<open>
  Claim C5, amended.  \<^verbatim>\<open>normalizePath\<close> resolves \<^verbatim>\<open>..\<close> and collapses a double slash
  before validating: \<^verbatim>\<open>/a/b/../c\<close> yields \<^verbatim>\<open>/a/c\<close>, \<^verbatim>\<open>/a//b\<close> yields \<^verbatim>\<open>/a/b\<close>, and
  \<^verbatim>\<open>/a/.hidden/b\<close> is returned unchanged.
\<close>

theorem normalizePath_scenarios:
  "normalizePath ''/a/b/../c'' = Return (Inr ''/a/c'') \<and>
   normalizePath ''/a//b'' = Return (Inr ''/a/b'') \<and>
   normalizePath ''/a/.hidden/b'' = Return (Inr ''/a/.hidden/b'')"
  by code_simp

text \<open>The empty path: \<^verbatim>\<open>Clean\<close> turns it into \<^verbatim>\<open>.\<close>, so the test
  \<^verbatim>\<open>path == ""\<close> of \<^verbatim>\<open>normalizePath\<close> never fires and the validator rejects the dot.\<close>

lemma normalizePath_empty: "normalizePath [] = Return (Inl (Errorf ''wrong path''))"
  by code_simp

section \<open>Properties of the native directory mount\<close>

text \<open>A path that \<^verbatim>\<open>IntoAbsPath\<close> returns begins with the root, as a string.\<close>

lemma IntoAbsPath_prefix:
  "IntoAbsPath d p = Return (Inr h) \<Longrightarrow> take (length (Root d)) h = Root d"
  by (auto simp: IntoAbsPath_def Let_def split: outcome.splits if_splits)

text \<open>
  Claim C1 at a failing input.  With root \<^verbatim>\<open>/srv/data\<close> and path \<^verbatim>\<open>/..\<close> the joined
  path is \<^verbatim>\<open>/srv\<close>: it is valid, it does not begin with the root, and it is shorter
  than the root by more than one byte, so the slice \<^verbatim>\<open>realPath[:len(d.Root)]\<close> panics
  instead of the function returning an error.  The same happens for the relative
  root \<^verbatim>\<open>./data\<close> and the path \<^verbatim>\<open>/\<close>.
\<close>

theorem IntoAbsPath_short_join_panics:
  "IntoAbsPath \<lparr>Root = ''/srv/data'', Readonly = False\<rparr> ''/..'' = Panic \<and>
   IntoAbsPath \<lparr>Root = ''./data'', Readonly = False\<rparr> ''/'' = Panic"
  by code_simp

section \<open>Properties of the permission wrapper\<close>

lemmas perm_defs = PermWrapperFS_List_def PermWrapperFS_Lstat_def PermWrapperFS_Stat_def
  PermWrapperFS_ReadLink_def PermWrapperFS_Read_def PermWrapperFS_Write_def
  PermWrapperFS_SetStat_def PermWrapperFS_Rename_def PermWrapperFS_Rmdir_def
  PermWrapperFS_Rm_def PermWrapperFS_Mkdir_def PermWrapperFS_Link_def PermWrapperFS_Symlink_def

text \<open>
  Claim C2.  When a path matches a hide expression, every operation of the wrapper on
  it returns \<^verbatim>\<open>ErrForbidden\<close>: list, stat, lstat, readlink, read, write, setStat,
  rmdir, rm and mkdir, and rename, link and symlink with the path on either side.
  The state of the world is returned as it was, for every method table of the inner
  mount and every state, so no method of the inner mount is called; the read and
  write expressions play no part.
\<close>

theorem hidden_path_is_forbidden:
  assumes "PermWrapperFS_ShouldHide p path"
  shows "PermWrapperFS_List methods p path s = (Inl ErrForbidden, s) \<and>
    PermWrapperFS_Stat methods p path s = (Inl ErrForbidden, s) \<and>
    PermWrapperFS_Lstat methods p path s = (Inl ErrForbidden, s) \<and>
    PermWrapperFS_ReadLink methods p path s = (Inl ErrForbidden, s) \<and>
    PermWrapperFS_Read methods p path s = (Inl ErrForbidden, s) \<and>
    PermWrapperFS_Write methods p path s = (Inl ErrForbidden, s) \<and>
    PermWrapperFS_SetStat methods p path flags attributes s = (Some ErrForbidden, s) \<and>
    PermWrapperFS_Rmdir methods p path s = (Some ErrForbidden, s) \<and>
    PermWrapperFS_Rm methods p path s = (Some ErrForbidden, s) \<and>
    PermWrapperFS_Mkdir methods p path s = (Some ErrForbidden, s) \<and>
    PermWrapperFS_Rename methods p path other s = (Some ErrForbidden, s) \<and>
    PermWrapperFS_Rename methods p other path s = (Some ErrForbidden, s) \<and>
    PermWrapperFS_Link methods p path other s = (Some ErrForbidden, s) \<and>
    PermWrapperFS_Link methods p other path s = (Some ErrForbidden, s) \<and>
    PermWrapperFS_Symlink methods p path other s = (Some ErrForbidden, s) \<and>
    PermWrapperFS_Symlink methods p other path s = (Some ErrForbidden, s)"
  using assms by (simp add: perm_defs)

theorem hidden_path_is_forbidden_witness:
  "PermWrapperFS_ShouldHide secretPolicy ''/secret'' \<and>
   PermWrapperFS_Stat countedEmptyMount secretPolicy ''/secret'' ((), 0)
     = (Inl ErrForbidden, ((), 0)) \<and>
   PermWrapperFS_Rename countedEmptyMount secretPolicy ''/public'' ''/secret'' ((), 0)
     = (Some ErrForbidden, ((), 0))"
proof -
  have h: "PermWrapperFS_ShouldHide secretPolicy ''/secret''"
    by (simp add: PermWrapperFS_ShouldHide_def secretPolicy_def)
  from hidden_path_is_forbidden [OF h, where methods = countedEmptyMount and s = "((), 0)"
      and other = "''/public''"] h
  show ?thesis by blast
qed

text \<open>
  Claim C9.  The expression lists are matched any-match, so with no read expression
  every read operation is refused on every path (link and symlink read their
  source), and with no write expression every write operation is.  \<^verbatim>\<open>CreateFS\<close>
  wraps the mounts whenever one of the three lists of the user is non-empty (the
  expressions being ones that compile), and for a user with hide expressions only the
  wrapper it builds has neither read nor write expressions: that user can read and
  write nothing.
\<close>

theorem empty_CanRead_forbids_reads:
  "(CanReadRegexp p = [] \<longrightarrow>
      PermWrapperFS_List methods p path s = (Inl ErrForbidden, s) \<and>
      PermWrapperFS_Stat methods p path s = (Inl ErrForbidden, s) \<and>
      PermWrapperFS_Lstat methods p path s = (Inl ErrForbidden, s) \<and>
      PermWrapperFS_ReadLink methods p path s = (Inl ErrForbidden, s) \<and>
      PermWrapperFS_Read methods p path s = (Inl ErrForbidden, s) \<and>
      PermWrapperFS_Link methods p path other s = (Some ErrForbidden, s) \<and>
      PermWrapperFS_Symlink methods p path other s = (Some ErrForbidden, s)) \<and>
   (CanWriteRegexp p = [] \<longrightarrow>
      PermWrapperFS_Write methods p path s = (Inl ErrForbidden, s) \<and>
      PermWrapperFS_SetStat methods p path flags attributes s = (Some ErrForbidden, s) \<and>
      PermWrapperFS_Rmdir methods p path s = (Some ErrForbidden, s) \<and>
      PermWrapperFS_Rm methods p path s = (Some ErrForbidden, s) \<and>
      PermWrapperFS_Mkdir methods p path s = (Some ErrForbidden, s) \<and>
      PermWrapperFS_Rename methods p path other s = (Some ErrForbidden, s)) \<and>
   (users username = Some u \<and>
    (CanRead u \<noteq> [] \<or> CanWrite u \<noteq> [] \<or> ShouldHide u \<noteq> []) \<and>
    intoRegexp compile (CanRead u) = Inr rs \<and>
    intoRegexp compile (CanWrite u) = Inr ws \<and>
    intoRegexp compile (ShouldHide u) = Inr hs \<longrightarrow>
      CreateFS compile users username =
        Inr (Wrapped \<lparr>Inner = createFSWithoutPermission u, CanReadRegexp = rs,
               CanWriteRegexp = ws, ShouldHideRegexp = hs\<rparr>)) \<and>
   (users username = Some u \<and> CanRead u = [] \<and> CanWrite u = [] \<and> ShouldHide u \<noteq> [] \<and>
    intoRegexp compile (ShouldHide u) = Inr hs \<longrightarrow>
      CreateFS compile users username =
        Inr (Wrapped \<lparr>Inner = createFSWithoutPermission u, CanReadRegexp = [],
               CanWriteRegexp = [], ShouldHideRegexp = hs\<rparr>))"
proof -
  have a: "CanReadRegexp p = [] \<longrightarrow>
      PermWrapperFS_List methods p path s = (Inl ErrForbidden, s) \<and>
      PermWrapperFS_Stat methods p path s = (Inl ErrForbidden, s) \<and>
      PermWrapperFS_Lstat methods p path s = (Inl ErrForbidden, s) \<and>
      PermWrapperFS_ReadLink methods p path s = (Inl ErrForbidden, s) \<and>
      PermWrapperFS_Read methods p path s = (Inl ErrForbidden, s) \<and>
      PermWrapperFS_Link methods p path other s = (Some ErrForbidden, s) \<and>
      PermWrapperFS_Symlink methods p path other s = (Some ErrForbidden, s)"
    by (simp add: perm_defs PermWrapperFS_CanRead_def)
  have b: "CanWriteRegexp p = [] \<longrightarrow>
      PermWrapperFS_Write methods p path s = (Inl ErrForbidden, s) \<and>
      PermWrapperFS_SetStat methods p path flags attributes s = (Some ErrForbidden, s) \<and>
      PermWrapperFS_Rmdir methods p path s = (Some ErrForbidden, s) \<and>
      PermWrapperFS_Rm methods p path s = (Some ErrForbidden, s) \<and>
      PermWrapperFS_Mkdir methods p path s = (Some ErrForbidden, s) \<and>
      PermWrapperFS_Rename methods p path other s = (Some ErrForbidden, s)"
    by (simp add: perm_defs PermWrapperFS_CanWrite_def)
  have c: "users username = Some u \<and>
    (CanRead u \<noteq> [] \<or> CanWrite u \<noteq> [] \<or> ShouldHide u \<noteq> []) \<and>
    intoRegexp compile (CanRead u) = Inr rs \<and>
    intoRegexp compile (CanWrite u) = Inr ws \<and>
    intoRegexp compile (ShouldHide u) = Inr hs \<longrightarrow>
      CreateFS compile users username =
        Inr (Wrapped \<lparr>Inner = createFSWithoutPermission u, CanReadRegexp = rs,
               CanWriteRegexp = ws, ShouldHideRegexp = hs\<rparr>)"
    by (auto simp: CreateFS_def Let_def)
  have d: "users username = Some u \<and> CanRead u = [] \<and> CanWrite u = [] \<and> ShouldHide u \<noteq> [] \<and>
    intoRegexp compile (ShouldHide u) = Inr hs \<longrightarrow>
      CreateFS compile users username =
        Inr (Wrapped \<lparr>Inner = createFSWithoutPermission u, CanReadRegexp = [],
               CanWriteRegexp = [], ShouldHideRegexp = hs\<rparr>)"
    by (simp add: CreateFS_def Let_def)
  from a b c d show ?thesis by (intro conjI)
qed

theorem empty_CanRead_forbids_reads_witness:
  "CreateFS prefixCompile [''u'' \<mapsto> hideOnlyUser] ''u'' =
     Inr (Wrapped \<lparr>Inner = BaseDirFs \<lparr>Root = ''/srv'', Readonly = False\<rparr>, CanReadRegexp = [],
            CanWriteRegexp = [],
            ShouldHideRegexp = [\<lambda>path. take (length ''/secret'') path = ''/secret'']\<rparr>) \<and>
   (\<forall>(methods :: baseFS \<Rightarrow> (unit, lister, unit, unit) SimplifiedFS) s.
      PermWrapperFS_Stat methods
        \<lparr>Inner = BaseDirFs \<lparr>Root = ''/srv'', Readonly = False\<rparr>, CanReadRegexp = [],
         CanWriteRegexp = [],
         ShouldHideRegexp = [\<lambda>path. take (length ''/secret'') path = ''/secret'']\<rparr>
        ''/public'' s = (Inl ErrForbidden, s))"
proof -
  have h: "[''u'' \<mapsto> hideOnlyUser] ''u'' = Some hideOnlyUser \<and> CanRead hideOnlyUser = [] \<and>
      CanWrite hideOnlyUser = [] \<and> ShouldHide hideOnlyUser \<noteq> [] \<and>
      intoRegexp prefixCompile (ShouldHide hideOnlyUser)
        = Inr [\<lambda>path. take (length ''/secret'') path = ''/secret'']"
    by (simp add: hideOnlyUser_def prefixCompile_def)
  have i: "createFSWithoutPermission hideOnlyUser = BaseDirFs \<lparr>Root = ''/srv'', Readonly = False\<rparr>"
    by (simp add: hideOnlyUser_def createFSWithoutPermission_def)
  let ?W = "\<lparr>Inner = BaseDirFs \<lparr>Root = ''/srv'', Readonly = False\<rparr>, CanReadRegexp = [],
         CanWriteRegexp = [],
         ShouldHideRegexp = [\<lambda>path. take (length ''/secret'') path = ''/secret'']\<rparr>"
  have "[''u'' \<mapsto> hideOnlyUser] ''u'' = Some hideOnlyUser \<and> CanRead hideOnlyUser = [] \<and>
      CanWrite hideOnlyUser = [] \<and> ShouldHide hideOnlyUser \<noteq> [] \<and>
      intoRegexp prefixCompile (ShouldHide hideOnlyUser)
        = Inr [\<lambda>path. take (length ''/secret'') path = ''/secret''] \<longrightarrow>
      CreateFS prefixCompile [''u'' \<mapsto> hideOnlyUser] ''u'' =
        Inr (Wrapped \<lparr>Inner = createFSWithoutPermission hideOnlyUser, CanReadRegexp = [],
               CanWriteRegexp = [],
               ShouldHideRegexp = [\<lambda>path. take (length ''/secret'') path = ''/secret'']\<rparr>)"
    by (rule empty_CanRead_forbids_reads [THEN conjunct2, THEN conjunct2, THEN conjunct2])
  with h i have 1: "CreateFS prefixCompile [''u'' \<mapsto> hideOnlyUser] ''u'' = Inr (Wrapped ?W)"
    by simp
  have 2: "PermWrapperFS_Stat methods ?W ''/public'' s = (Inl ErrForbidden, s)"
    for methods :: "baseFS \<Rightarrow> (unit, lister, unit, unit) SimplifiedFS" and s
  proof -
    have "CanReadRegexp ?W = [] \<longrightarrow>
      PermWrapperFS_List methods ?W ''/public'' s = (Inl ErrForbidden, s) \<and>
      PermWrapperFS_Stat methods ?W ''/public'' s = (Inl ErrForbidden, s) \<and>
      PermWrapperFS_Lstat methods ?W ''/public'' s = (Inl ErrForbidden, s) \<and>
      PermWrapperFS_ReadLink methods ?W ''/public'' s = (Inl ErrForbidden, s) \<and>
      PermWrapperFS_Read methods ?W ''/public'' s = (Inl ErrForbidden, s) \<and>
      PermWrapperFS_Link methods ?W ''/public'' ''/other'' s = (Some ErrForbidden, s) \<and>
      PermWrapperFS_Symlink methods ?W ''/public'' ''/other'' s = (Some ErrForbidden, s)"
      by (rule empty_CanRead_forbids_reads [THEN conjunct1])
    then show ?thesis by simp
  qed
  from 1 2 show ?thesis by simp
qed

subsection \<open>The filtered listing over a native directory listing\<close>

lemma DirFs_lister_single:
  "r < length L \<Longrightarrow> DirFs_lister L (Suc 0) (int r) = Return ([L ! r], None)"
  by (simp add: DirFs_lister_def Let_def Cons_nth_drop_Suc [symmetric])

lemma DirFs_lister_batch:
  "r \<le> length L \<Longrightarrow> 1 \<le> n \<Longrightarrow>
     DirFs_lister L n (int r) =
       Return (take n (drop r L), if length L - r < n then Some EOF else None)"
  by (auto simp: DirFs_lister_def Let_def)

lemma filterBatch_spec:
  "filterBatch p path xs (int a) st = (ls, st') \<Longrightarrow>
     ls = filter (visible p path) xs \<and>
     set (idxToHide st') =
       set (idxToHide st) \<union> {int (a + k) |k. k < length xs \<and> \<not> visible p path (xs ! k)}"
proof (induction xs arbitrary: a st ls st')
  case Nil
  then show ?case by simp
next
  case (Cons x xs)
  have idx: "int a + 1 = int (Suc a)" by simp
  have split: "{int (a + k) |k. k < length (x # xs) \<and> \<not> visible p path ((x # xs) ! k)} =
      (if visible p path x then {} else {int a}) \<union>
      {int (Suc a + k) |k. k < length xs \<and> \<not> visible p path (xs ! k)}"
  proof (intro set_eqI iffI)
    fix y
    assume "y \<in> {int (a + k) |k. k < length (x # xs) \<and> \<not> visible p path ((x # xs) ! k)}"
    then obtain k where k: "y = int (a + k)" "k < length (x # xs)"
        "\<not> visible p path ((x # xs) ! k)" by blast
    show "y \<in> (if visible p path x then {} else {int a}) \<union>
      {int (Suc a + k) |k. k < length xs \<and> \<not> visible p path (xs ! k)}"
    proof (cases k)
      case 0
      with k show ?thesis by simp
    next
      case (Suc j)
      with k have "y = int (Suc a + j)" "j < length xs" "\<not> visible p path (xs ! j)" by simp_all
      then show ?thesis by blast
    qed
  next
    fix y
    assume "y \<in> (if visible p path x then {} else {int a}) \<union>
      {int (Suc a + k) |k. k < length xs \<and> \<not> visible p path (xs ! k)}"
    then consider "\<not> visible p path x" "y = int a"
      | j where "y = int (Suc a + j)" "j < length xs" "\<not> visible p path (xs ! j)"
      by (auto split: if_splits)
    then show "y \<in> {int (a + k) |k. k < length (x # xs) \<and> \<not> visible p path ((x # xs) ! k)}"
    proof cases
      case 1
      then have "y = int (a + 0)" "0 < length (x # xs)" "\<not> visible p path ((x # xs) ! 0)"
        by simp_all
      then show ?thesis by blast
    next
      case 2
      then have "y = int (a + Suc j)" "Suc j < length (x # xs)"
          "\<not> visible p path ((x # xs) ! Suc j)"
        by simp_all
      then show ?thesis by blast
    qed
  qed
  show ?case
  proof (cases "visible p path x")
    case True
    then obtain ls0 where 0: "filterBatch p path xs (int (Suc a)) st = (ls0, st')" "ls = x # ls0"
      using Cons.prems by (auto simp: visible_def idx split: prod.splits)
    from Cons.IH [OF 0(1)] 0(2) True split show ?thesis by simp
  next
    case False
    define st1 where "st1 = st\<lparr>idxToHide := (if \<not> contains (idxToHide st) (int a)
                              then idxToHide st @ [int a] else idxToHide st),
              maxOffsetYet := maxInt64 (int a) (maxOffsetYet st)\<rparr>"
    from False Cons.prems have 0: "filterBatch p path xs (int (Suc a)) st1 = (ls, st')"
      by (simp add: visible_def idx st1_def)
    have "set (idxToHide st1) = set (idxToHide st) \<union> {int a}"
      by (auto simp: st1_def contains_set)
    with Cons.IH [OF 0] False split show ?thesis by auto
  qed
qed

lemma known_filterBatch:
  assumes k: "known p path L K st" and rk: "R \<le> K"
    and xs: "xs = take m (drop R L)"
    and fb: "filterBatch p path xs (int R) st = (ls, st')"
  shows "known p path L (max K (R + length xs)) st'"
proof -
  from filterBatch_spec [OF fb]
  have s: "set (idxToHide st') =
       set (idxToHide st) \<union> {int (R + k) |k. k < length xs \<and> \<not> visible p path (xs ! k)}"
    by simp
  have nth: "xs ! k = L ! (R + k)" "R + k < length L" if "k < length xs" for k
    using that xs by auto
  show ?thesis
    unfolding known_def
  proof (intro conjI allI impI)
    show "set (idxToHide st') \<subseteq> {int x |x. x < length L \<and> \<not> visible p path (L ! x)}"
    proof
      fix y
      assume "y \<in> set (idxToHide st')"
      with s consider "y \<in> set (idxToHide st)"
        | j where "y = int (R + j)" "j < length xs" "\<not> visible p path (xs ! j)"
        by blast
      then show "y \<in> {int x |x. x < length L \<and> \<not> visible p path (L ! x)}"
      proof cases
        case 1
        with k show ?thesis unfolding known_def by blast
      next
        case 2
        with nth [of j] have "R + j < length L" "\<not> visible p path (L ! (R + j))" by simp_all
        with 2(1) show ?thesis by blast
      qed
    qed
  next
    fix x
    assume x: "x < max K (R + length xs)" and h: "\<not> visible p path (L ! x)"
    show "int x \<in> set (idxToHide st')"
    proof (cases "x < K")
      case True
      with k h s show ?thesis unfolding known_def by auto
    next
      case False
      with x rk have "R \<le> x" "x - R < length xs" by auto
      moreover from this nth [of "x - R"] h have "\<not> visible p path (xs ! (x - R))" by simp
      ultimately have "int (R + (x - R)) \<in> set (idxToHide st')"
        using s by blast
      with \<open>R \<le> x\<close> show ?thesis by simp
    qed
  qed
qed

lemma count_take_mono:
  "r \<le> P \<Longrightarrow> length (filter V (take r L)) \<le> length (filter V (take P L))"
proof -
  assume "r \<le> P"
  then have "take P L = take r L @ take (P - r) (drop r L)"
    by (metis le_add_diff_inverse take_add)
  then show ?thesis by simp
qed

lemma filter_take_Suc:
  "r < length L \<Longrightarrow>
     filter V (take (Suc r) L) = filter V (take r L) @ (if V (L ! r) then [L ! r] else [])"
  by (simp add: take_Suc_conv_app_nth)

lemma known_maxOffsetYet [simp]:
  "known p path L P (st\<lparr>maxOffsetYet := m\<rparr>) = known p path L P st"
  by (simp add: known_def)

lemma known_append:
  "known p path L P st \<Longrightarrow> r < length L \<Longrightarrow> \<not> visible p path (L ! r) \<Longrightarrow>
     known p path L P (st\<lparr>idxToHide := idxToHide st @ [int r]\<rparr>)"
  by (auto simp: known_def)

lemma known_hidden:
  "known p path L P st \<Longrightarrow> int r \<in> set (idxToHide st) \<Longrightarrow> \<not> visible p path (L ! r)"
  by (auto simp: known_def)

lemma known_visible:
  "known p path L P st \<Longrightarrow> r < P \<Longrightarrow> int r \<notin> set (idxToHide st) \<Longrightarrow> visible p path (L ! r)"
  by (auto simp: known_def)

lemma skipLoop_spec:
  assumes "known p path L P st" and "P \<le> length L"
    and "off = length (filter (visible p path) (take P L))"
    and "r \<le> P" and "i = length (filter (visible p path) (take r L))"
  shows "\<exists>R st'. skipLoop p path (DirFs_lister L) (int off) (int i) (int r) st
            = Return (Inr (int R), st') \<and>
          R \<le> P \<and> length (filter (visible p path) (take R L)) = off \<and> known p path L P st'"
  using assms
proof (induction "P - r" arbitrary: r i st rule: less_induct)
  case less
  note kn = \<open>known p path L P st\<close> and PL = \<open>P \<le> length L\<close>
    and off = \<open>off = length (filter (visible p path) (take P L))\<close>
    and rP = \<open>r \<le> P\<close> and i = \<open>i = length (filter (visible p path) (take r L))\<close>
  have ile: "i \<le> off"
    using count_take_mono [OF rP] i off by simp
  show ?case
  proof (cases "i < off")
    case False
    with ile have "i = off" by simp
    then have "skipLoop p path (DirFs_lister L) (int off) (int i) (int r) st
        = Return (Inr (int r), st)"
      by (subst skipLoop.simps) simp
    with rP i \<open>i = off\<close> kn show ?thesis by blast
  next
    case True
    with i off rP have rltP: "r < P" by (cases "r = P") auto
    with PL have rL: "r < length L" by simp
    have next_r: "P - Suc r < P - r" using rltP by simp
    have sucP: "Suc r \<le> P" using rltP by simp
    have conv: "int i + 1 = int (Suc i)" "int r + 1 = int (Suc r)" by simp_all
    consider (trusted) "int i < maxOffsetYet st" "int r \<notin> set (idxToHide st)"
      | (probe) "maxOffsetYet st \<le> int i"
      | (skipped) "int i < maxOffsetYet st" "int r \<in> set (idxToHide st)"
      by linarith
    then show ?thesis
    proof cases
      case trusted
      from known_visible [OF kn rltP trusted(2)] have vis: "visible p path (L ! r)" .
      have step: "skipLoop p path (DirFs_lister L) (int off) (int i) (int r) st
          = skipLoop p path (DirFs_lister L) (int off) (int (Suc i)) (int (Suc r)) st"
        using True trusted by (subst skipLoop.simps) (simp add: contains_set conv)
      have "Suc i = length (filter (visible p path) (take (Suc r) L))"
        using i vis rL by (simp add: filter_take_Suc)
      from less.hyps [OF next_r kn PL off sucP this] step show ?thesis by simp
    next
      case skipped
      from known_hidden [OF kn skipped(2)] have hid: "\<not> visible p path (L ! r)" .
      have step: "skipLoop p path (DirFs_lister L) (int off) (int i) (int r) st
          = skipLoop p path (DirFs_lister L) (int off) (int i) (int (Suc r)) st"
        using True skipped by (subst skipLoop.simps) (simp add: contains_set conv)
      have "i = length (filter (visible p path) (take (Suc r) L))"
        using i hid rL by (simp add: filter_take_Suc)
      from less.hyps [OF next_r kn PL off sucP this] step show ?thesis by simp
    next
      case probe
      show ?thesis
      proof (cases "visible p path (L ! r)")
        case vis: True
        have step: "skipLoop p path (DirFs_lister L) (int off) (int i) (int r) st
            = skipLoop p path (DirFs_lister L) (int off) (int (Suc i)) (int (Suc r))
                (st\<lparr>maxOffsetYet := maxOffsetYet st + 1\<rparr>)"
          using True probe vis rL
          by (subst skipLoop.simps) (simp add: DirFs_lister_single visible_def conv)
        have kn': "known p path L P (st\<lparr>maxOffsetYet := maxOffsetYet st + 1\<rparr>)"
          using kn by simp
        have "Suc i = length (filter (visible p path) (take (Suc r) L))"
          using i vis rL by (simp add: filter_take_Suc)
        from less.hyps [OF next_r kn' PL off sucP this] step show ?thesis by simp
      next
        case hid: False
        have step: "skipLoop p path (DirFs_lister L) (int off) (int i) (int r) st
            = skipLoop p path (DirFs_lister L) (int off) (int i) (int (Suc r))
                (st\<lparr>maxOffsetYet := maxOffsetYet st + 1,
                    idxToHide := idxToHide st @ [int r]\<rparr>)"
          using True probe hid rL
          by (subst skipLoop.simps) (simp add: DirFs_lister_single visible_def conv)
        have kn': "known p path L P (st\<lparr>maxOffsetYet := maxOffsetYet st + 1,
                    idxToHide := idxToHide st @ [int r]\<rparr>)"
          using known_append [OF kn rL hid] by (simp add: known_def)
        have "i = length (filter (visible p path) (take (Suc r) L))"
          using i hid rL by (simp add: filter_take_Suc)
        from less.hyps [OF next_r kn' PL off sucP this] step show ?thesis by simp
      qed
    qed
  qed
qed

lemma take_drop_split:
  "a \<le> b \<Longrightarrow> take (b - R) (drop R L) = take (a - R) (drop R L) @ take (b - a) (drop a L)"
  if "R \<le> a"
proof -
  assume ab: "a \<le> b"
  have "b - R = (a - R) + (b - a)" using that ab by simp
  then have "take (b - R) (drop R L) = take (a - R) (drop R L) @ take (b - a) (drop (a - R) (drop R L))"
    by (simp only: take_add)
  also have "drop (a - R) (drop R L) = drop a L" using that by simp
  finally show ?thesis .
qed

lemma fillLoop_spec:
  assumes "known p path L K st" and "R \<le> K" and "K \<le> length L" and "1 \<le> n"
  shows "\<exists>ls err st' R'.
          fillLoop p path (DirFs_lister L) n (int R) st = Some (Return ((ls, err), st')) \<and>
          R \<le> R' \<and> R' \<le> length L \<and>
          ls = filter (visible p path) (take (R' - R) (drop R L)) \<and>
          known p path L (max K R') st' \<and>
          (err = None \<longrightarrow> ls \<noteq> []) \<and>
          (err \<noteq> None \<longrightarrow> err = Some EOF \<and> R' = length L)"
  using assms
proof (induction "length L - R" arbitrary: R K st rule: less_induct)
  case less
  note kn = \<open>known p path L K st\<close> and RK = \<open>R \<le> K\<close> and KL = \<open>K \<le> length L\<close>
    and n1 = \<open>1 \<le> n\<close>
  from RK KL have RL: "R \<le> length L" by simp
  define xs where "xs = take n (drop R L)"
  define e where "e = (if length L - R < n then Some EOF else None)"
  have call: "DirFs_lister L n (int R) = Return (xs, e)"
    using DirFs_lister_batch [OF RL n1] by (simp add: xs_def e_def)
  have len: "length xs = min n (length L - R)" by (simp add: xs_def min.commute)
  obtain ls0 st0 where fb: "filterBatch p path xs (int R) st = (ls0, st0)"
    by (cases "filterBatch p path xs (int R) st") auto
  from filterBatch_spec [OF fb] have ls0: "ls0 = filter (visible p path) xs" by simp
  from known_filterBatch [OF kn RK xs_def fb]
  have kn0: "known p path L (max K (R + length xs)) st0" .
  have e_cases: "e = None \<or> e = Some EOF" by (simp add: e_def)
  show ?case
  proof (cases "ls0 = [] \<and> e \<noteq> Some EOF")
    case True
    with e_cases have eN: "e = None" by auto
    then have full: "n \<le> length L - R" by (simp add: e_def split: if_splits)
    with len have lenn: "length xs = n" by simp
    define R1 where "R1 = R + n"
    have R1L: "R1 \<le> length L" using full RL by (simp add: R1_def)
    have step: "fillLoop p path (DirFs_lister L) n (int R) st
        = fillLoop p path (DirFs_lister L) n (int R1) st0"
      using True eN fb call lenn by (subst fillLoop.simps) (simp add: R1_def)
    have smaller: "length L - R1 < length L - R" using n1 full R1L by (simp add: R1_def)
    have kn1: "known p path L (max K R1) st0" using kn0 lenn by (simp add: R1_def)
    have "max K R1 \<le> length L" using KL R1L by simp
    from less.hyps [OF smaller kn1 _ this n1]
    obtain ls err st' R' where r:
      "fillLoop p path (DirFs_lister L) n (int R1) st0 = Some (Return ((ls, err), st'))"
      "R1 \<le> R'" "R' \<le> length L"
      "ls = filter (visible p path) (take (R' - R1) (drop R1 L))"
      "known p path L (max (max K R1) R') st'"
      "err = None \<longrightarrow> ls \<noteq> []"
      "err \<noteq> None \<longrightarrow> err = Some EOF \<and> R' = length L"
      by auto
    have "take (R' - R) (drop R L) = take (R1 - R) (drop R L) @ take (R' - R1) (drop R1 L)"
      using take_drop_split [of R R1 R' L] r(2) by (simp add: R1_def)
    moreover have "take (R1 - R) (drop R L) = xs" by (simp add: R1_def xs_def)
    ultimately have "filter (visible p path) (take (R' - R) (drop R L)) = ls"
      using True ls0 r(4) by simp
    then have a: "ls = filter (visible p path) (take (R' - R) (drop R L))" by simp
    have b: "known p path L (max K R') st'" using r(5) r(2) by (simp add: max.assoc max_absorb2)
    have c: "R \<le> R'" using r(2) by (simp add: R1_def)
    have d: "fillLoop p path (DirFs_lister L) n (int R) st = Some (Return ((ls, err), st'))"
      using r(1) step by simp
    from d c r(3) a b r(6) r(7) show ?thesis by blast
  next
    case False
    define R' where "R' = R + length xs"
    have res: "fillLoop p path (DirFs_lister L) n (int R) st = Some (Return ((ls0, e), st0))"
      using False e_cases fb call by (subst fillLoop.simps) auto
    have R'L: "R' \<le> length L" using len RL by (simp add: R'_def)
    have "take (length xs) (drop R L) = xs"
      unfolding xs_def by (cases "n \<le> length L - R") (simp_all add: min_def)
    then have "take (R' - R) (drop R L) = xs" by (simp add: R'_def)
    then have a: "ls0 = filter (visible p path) (take (R' - R) (drop R L))" using ls0 by simp
    have b: "e = None \<longrightarrow> ls0 \<noteq> []" using False by auto
    have c: "e \<noteq> None \<longrightarrow> e = Some EOF \<and> R' = length L"
      using len RL by (auto simp: e_def R'_def split: if_splits)
    have d: "known p path L (max K R') st0" using kn0 by (simp add: R'_def)
    have "R \<le> R'" by (simp add: R'_def)
    with res R'L a b c d show ?thesis by blast
  qed
qed

lemma filter_take_prefix:
  "filter V (take Q L) = take (length (filter V (take Q L))) (filter V L)"
proof -
  have "filter V L = filter V (take Q L) @ filter V (drop Q L)"
    by (metis append_take_drop_id filter_append)
  then show ?thesis by simp
qed

lemma fill_spec:
  assumes kn: "known p path L P st" and PL: "P \<le> length L"
    and off: "off = length (filter (visible p path) (take P L))" and n1: "1 \<le> n"
  shows "\<exists>ls err st' P'.
          PermWrapperFS_fill p path (DirFs_lister L) st n (int off)
            = Some (Return ((ls, err), st')) \<and>
          P \<le> P' \<and> P' \<le> length L \<and>
          filter (visible p path) (take P' L) = filter (visible p path) (take P L) @ ls \<and>
          known p path L P' st' \<and>
          (err = None \<longrightarrow> ls \<noteq> []) \<and>
          (err \<noteq> None \<longrightarrow> err = Some EOF \<and> P' = length L)"
proof -
  have "0 = length (filter (visible p path) (take 0 L))" by simp
  from skipLoop_spec [OF kn PL off _ this]
  obtain R st1 where s:
    "skipLoop p path (DirFs_lister L) (int off) 0 0 st = Return (Inr (int R), st1)"
    "R \<le> P" "length (filter (visible p path) (take R L)) = off" "known p path L P st1"
    by auto
  from fillLoop_spec [OF s(4) s(2) PL n1]
  obtain ls err st' R' where f:
    "fillLoop p path (DirFs_lister L) n (int R) st1 = Some (Return ((ls, err), st'))"
    "R \<le> R'" "R' \<le> length L"
    "ls = filter (visible p path) (take (R' - R) (drop R L))"
    "known p path L (max P R') st'"
    "err = None \<longrightarrow> ls \<noteq> []"
    "err \<noteq> None \<longrightarrow> err = Some EOF \<and> R' = length L"
    by blast
  have call: "PermWrapperFS_fill p path (DirFs_lister L) st n (int off)
      = Some (Return ((ls, err), st'))"
    using s(1) f(1) by (simp add: PermWrapperFS_fill_def)
  have splitP: "take P L = take R L @ take (P - R) (drop R L)"
    using s(2) by (metis le_add_diff_inverse take_add)
  have gap: "filter (visible p path) (take (P - R) (drop R L)) = []"
  proof -
    have "length (filter (visible p path) (take P L)) =
        length (filter (visible p path) (take R L)) +
        length (filter (visible p path) (take (P - R) (drop R L)))"
      by (simp add: splitP)
    with off s(3) show ?thesis by simp
  qed
  have eqRP: "filter (visible p path) (take P L) = filter (visible p path) (take R L)"
    by (simp add: splitP gap)
  have PR': "P \<le> R'"
  proof (rule ccontr)
    assume "\<not> P \<le> R'"
    then have lt: "R' < P" by simp
    have "take (P - R) (drop R L) = take (R' - R) (drop R L) @ take (P - R') (drop R' L)"
      using take_drop_split [of R R' P L] f(2) lt by simp
    with gap have "ls = []" using f(4) by simp
    with f(6) f(7) have "R' = length L" by blast
    with lt PL show False by simp
  qed
  have splitR': "take R' L = take R L @ take (R' - R) (drop R L)"
    using f(2) by (metis le_add_diff_inverse take_add)
  have res: "filter (visible p path) (take R' L) = filter (visible p path) (take P L) @ ls"
    by (simp add: splitR' eqRP f(4))
  have kn': "known p path L R' st'" using f(5) PR' by (simp add: max_absorb2)
  from call PR' f(3) res kn' f(6) f(7) show ?thesis by blast
qed

lemma protocolCalls_filtered:
  assumes "\<forall>n\<in>set ns. 1 \<le> n" and "known p path L P st" and "P \<le> length L"
    and "acc = filter (visible p path) (take P L)"
  shows "\<exists>ys err.
          protocolCalls p (Filtered (DirFs_lister L) path st) ns (int (length acc)) acc
            = Some (Return (ys, err)) \<and>
          (err = None \<longrightarrow> length acc + length ns \<le> length ys \<and>
             (\<exists>Q\<le>length L. ys = filter (visible p path) (take Q L))) \<and>
          (err \<noteq> None \<longrightarrow> err = Some EOF \<and> ys = filter (visible p path) L)"
  using assms
proof (induction ns arbitrary: st P acc)
  case Nil
  then show ?case by auto
next
  case (Cons n ns)
  from Cons.prems have n1: "1 \<le> n" and rest: "\<forall>n\<in>set ns. 1 \<le> n" by simp_all
  have off: "length acc = length (filter (visible p path) (take P L))"
    using Cons.prems(4) by simp
  from fill_spec [OF Cons.prems(2) Cons.prems(3) off n1]
  obtain ls err st' P' where f:
    "PermWrapperFS_fill p path (DirFs_lister L) st n (int (length acc))
       = Some (Return ((ls, err), st'))"
    "P \<le> P'" "P' \<le> length L"
    "filter (visible p path) (take P' L) = filter (visible p path) (take P L) @ ls"
    "known p path L P' st'"
    "err = None \<longrightarrow> ls \<noteq> []"
    "err \<noteq> None \<longrightarrow> err = Some EOF \<and> P' = length L"
    by blast
  have call: "callLister p (Filtered (DirFs_lister L) path st) n (int (length acc))
      = Some (Return ((ls, err), Filtered (DirFs_lister L) path st'))"
    using f(1) by (simp add: callLister_def)
  have acc': "acc @ ls = filter (visible p path) (take P' L)"
    using f(4) Cons.prems(4) by simp
  show ?case
  proof (cases err)
    case None
    with f(6) have ne: "ls \<noteq> []" by simp
    have step: "protocolCalls p (Filtered (DirFs_lister L) path st) (n # ns)
          (int (length acc)) acc
        = protocolCalls p (Filtered (DirFs_lister L) path st') ns
            (int (length (acc @ ls))) (acc @ ls)"
      using call None by simp
    from Cons.IH [OF rest f(5) f(3) acc']
    obtain ys err2 where r:
      "protocolCalls p (Filtered (DirFs_lister L) path st') ns (int (length (acc @ ls)))
          (acc @ ls) = Some (Return (ys, err2))"
      "err2 = None \<longrightarrow> length (acc @ ls) + length ns \<le> length ys \<and>
             (\<exists>Q\<le>length L. ys = filter (visible p path) (take Q L))"
      "err2 \<noteq> None \<longrightarrow> err2 = Some EOF \<and> ys = filter (visible p path) L"
      by blast
    have "err2 = None \<longrightarrow> length acc + length (n # ns) \<le> length ys"
      using r(2) ne by (cases ls) auto
    with r step show ?thesis by auto
  next
    case (Some e)
    with f(7) have e: "err = Some EOF" "P' = length L" by simp_all
    have "protocolCalls p (Filtered (DirFs_lister L) path st) (n # ns)
          (int (length acc)) acc = Some (Return (acc @ ls, Some EOF))"
      using call e by simp
    moreover have "acc @ ls = filter (visible p path) L" using acc' e by simp
    ultimately show ?thesis by simp
  qed
qed

lemma protocolCalls_unfiltered:
  assumes "\<forall>n\<in>set ns. 1 \<le> n" and "off \<le> length L"
  shows "\<exists>ys err.
          protocolCalls p (Unfiltered (DirFs_lister L)) ns (int off) (take off L)
            = Some (Return (ys, err)) \<and>
          (err = None \<longrightarrow> off + length ns \<le> length ys \<and> (\<exists>Q\<le>length L. ys = take Q L)) \<and>
          (err \<noteq> None \<longrightarrow> err = Some EOF \<and> ys = L)"
  using assms
proof (induction ns arbitrary: off)
  case Nil
  then show ?case by auto
next
  case (Cons n ns)
  from Cons.prems have n1: "1 \<le> n" and rest: "\<forall>n\<in>set ns. 1 \<le> n" by simp_all
  define e where "e = (if length L - off < n then Some EOF else None)"
  have call: "callLister p (Unfiltered (DirFs_lister L)) n (int off)
      = Some (Return ((take n (drop off L), e), Unfiltered (DirFs_lister L)))"
    using DirFs_lister_batch [OF Cons.prems(2) n1] by (simp add: callLister_def e_def)
  have acc': "take off L @ take n (drop off L) = take (off + n) L"
    by (simp add: take_add)
  show ?case
  proof (cases "length L - off < n")
    case True
    then have "take (off + n) L = L" by simp
    moreover have "protocolCalls p (Unfiltered (DirFs_lister L)) (n # ns) (int off) (take off L)
        = Some (Return (take off L @ take n (drop off L), Some EOF))"
      using call True by (simp add: e_def)
    ultimately show ?thesis using acc' by simp
  next
    case False
    with Cons.prems(2) have le: "off + n \<le> length L" by simp
    then have len: "length (take n (drop off L)) = n" by simp
    have step: "protocolCalls p (Unfiltered (DirFs_lister L)) (n # ns) (int off) (take off L)
        = protocolCalls p (Unfiltered (DirFs_lister L)) ns (int (off + n)) (take (off + n) L)"
      using call False len acc' by (simp add: e_def)
    from Cons.IH [OF rest le]
    obtain ys err where r:
      "protocolCalls p (Unfiltered (DirFs_lister L)) ns (int (off + n)) (take (off + n) L)
         = Some (Return (ys, err))"
      "err = None \<longrightarrow> off + n + length ns \<le> length ys \<and> (\<exists>Q\<le>length L. ys = take Q L)"
      "err \<noteq> None \<longrightarrow> err = Some EOF \<and> ys = L"
      by blast
    have "err = None \<longrightarrow> off + length (n # ns) \<le> length ys" using r(2) n1 by auto
    with r step show ?thesis by auto
  qed
qed

text \<open>
  The filtered listing of a native directory.  Let the inner \<^verbatim>\<open>List\<close> return the
  closure of \<^verbatim>\<open>DirFs.List\<close> over the entries \<open>fileinfos\<close>, and let a client call the function that \<^verbatim>\<open>PermWrapperFS.List\<close>
  returns once per buffer length in \<open>ns\<close> (each at least 1), at offset 0 first and then
  at the previous offset plus the number of entries returned.  Every call returns;
  as long as no call has reported an error each call has delivered at least one
  entry and the concatenation is a prefix of the visible entries; the only error
  reported is \<^verbatim>\<open>io.EOF\<close>, and then the concatenation is exactly the inner listing
  without the hidden entries.  \<^verbatim>\<open>io.EOF\<close> is reached as soon as there are more calls
  than visible entries.
\<close>

lemma filtered_listing_protocol:
  assumes "\<forall>n\<in>set ns. 1 \<le> n"
    and "PermWrapperFS_CanRead p path" and "\<not> PermWrapperFS_ShouldHide p path"
    and "fsList (methods (Inner p)) path s = (Inr (DirFs_lister fileinfos), s')"
  shows "\<exists>l ys err.
      PermWrapperFS_List methods p path s = (Inr l, s') \<and>
      protocolCalls p l ns 0 [] = Some (Return (ys, err)) \<and>
      (err = None \<longrightarrow>
         length ns \<le> length ys \<and> ys = take (length ys) (visibleOf p path fileinfos)) \<and>
      (err \<noteq> None \<longrightarrow> err = Some EOF \<and> ys = visibleOf p path fileinfos) \<and>
      (length (visibleOf p path fileinfos) < length ns \<longrightarrow>
         err = Some EOF \<and> ys = visibleOf p path fileinfos)"
proof -
  define l where "l = (if ShouldHideRegexp p = [] then Unfiltered (DirFs_lister fileinfos)
      else Filtered (DirFs_lister fileinfos) path \<lparr>idxToHide = [], maxOffsetYet = 0\<rparr>)"
  have list: "PermWrapperFS_List methods p path s = (Inr l, s')"
    using assms(2,3,4) by (simp add: PermWrapperFS_List_def l_def)
  have run: "\<exists>ys err. protocolCalls p l ns 0 [] = Some (Return (ys, err)) \<and>
      (err = None \<longrightarrow> length ns \<le> length ys \<and>
         (\<exists>Q\<le>length fileinfos. ys = filter (visible p path) (take Q fileinfos))) \<and>
      (err \<noteq> None \<longrightarrow> err = Some EOF \<and> ys = filter (visible p path) fileinfos)"
  proof (cases "ShouldHideRegexp p = []")
    case True
    then have all: "filter (visible p path) xs = xs" for xs
      by (simp add: visible_def PermWrapperFS_ShouldHide_def)
    from protocolCalls_unfiltered [OF assms(1), of 0 fileinfos p] True all
    show ?thesis by (simp add: l_def)
  next
    case False
    have kn: "known p path fileinfos 0 \<lparr>idxToHide = [], maxOffsetYet = 0\<rparr>"
      by (simp add: known_def)
    have "[] = filter (visible p path) (take 0 fileinfos)" by simp
    from protocolCalls_filtered [OF assms(1) kn _ this] False
    show ?thesis by (simp add: l_def)
  qed
  then obtain ys err where r:
    "protocolCalls p l ns 0 [] = Some (Return (ys, err))"
    "err = None \<longrightarrow> length ns \<le> length ys \<and>
         (\<exists>Q\<le>length fileinfos. ys = filter (visible p path) (take Q fileinfos))"
    "err \<noteq> None \<longrightarrow> err = Some EOF \<and> ys = filter (visible p path) fileinfos"
    by blast
  have a: "err = None \<longrightarrow>
         length ns \<le> length ys \<and> ys = take (length ys) (visibleOf p path fileinfos)"
  proof (intro impI conjI)
    assume e: "err = None"
    with r(2) show "length ns \<le> length ys" by simp
    from e r(2) obtain Q where Q: "ys = filter (visible p path) (take Q fileinfos)" by blast
    show "ys = take (length ys) (visibleOf p path fileinfos)"
      unfolding Q visibleOf_def by (rule filter_take_prefix)
  qed
  have b: "err \<noteq> None \<longrightarrow> err = Some EOF \<and> ys = visibleOf p path fileinfos"
    using r(3) by (simp add: visibleOf_def)
  have c: "length (visibleOf p path fileinfos) < length ns \<longrightarrow>
         err = Some EOF \<and> ys = visibleOf p path fileinfos"
  proof
    assume lt: "length (visibleOf p path fileinfos) < length ns"
    have "err \<noteq> None"
    proof
      assume e: "err = None"
      with r(2) obtain Q where Q: "ys = filter (visible p path) (take Q fileinfos)" by blast
      have "filter (visible p path) fileinfos =
          filter (visible p path) (take Q fileinfos) @ filter (visible p path) (drop Q fileinfos)"
        by (metis append_take_drop_id filter_append)
      then have "length ys \<le> length (visibleOf p path fileinfos)"
        by (simp add: Q visibleOf_def)
      moreover from e r(2) have "length ns \<le> length ys" by simp
      ultimately show False using lt by simp
    qed
    with b show "err = Some EOF \<and> ys = visibleOf p path fileinfos" by simp
  qed
  from list r(1) a b c show ?thesis by blast
qed

lemma filtered_listing_protocol_sample:
  "PermWrapperFS_List sampleMount hidePolicy ''/d'' ()
     = (Inr (Filtered (DirFs_lister sampleDir) ''/d'' \<lparr>idxToHide = [], maxOffsetYet = 0\<rparr>), ()) \<and>
   protocolCalls hidePolicy
       (Filtered (DirFs_lister sampleDir) ''/d'' \<lparr>idxToHide = [], maxOffsetYet = 0\<rparr>)
       [1, 2, 2] 0 []
     = Some (Return ([plainFile ''a'', plainFile ''b''], Some EOF))"
proof -
  have h1: "\<forall>n\<in>set [1, 2, 2 :: nat]. 1 \<le> n" by simp
  have h2: "PermWrapperFS_CanRead hidePolicy ''/d''"
    by (simp add: PermWrapperFS_CanRead_def hidePolicy_def)
  have h3: "\<not> PermWrapperFS_ShouldHide hidePolicy ''/d''"
    by (simp add: PermWrapperFS_ShouldHide_def hidePolicy_def)
  have h4: "fsList (sampleMount (Inner hidePolicy)) ''/d'' () = (Inr (DirFs_lister sampleDir), ())"
    by (simp add: sampleMount_def)
  have l: "PermWrapperFS_List sampleMount hidePolicy ''/d'' ()
     = (Inr (Filtered (DirFs_lister sampleDir) ''/d'' \<lparr>idxToHide = [], maxOffsetYet = 0\<rparr>), ())"
    using h2 h3 h4 by (simp add: PermWrapperFS_List_def) (simp add: hidePolicy_def)
  have v: "visibleOf hidePolicy ''/d'' sampleDir = [plainFile ''a'', plainFile ''b'']"
    by code_simp
  from filtered_listing_protocol [where ns = "[1, 2, 2]" and p = hidePolicy and path = "''/d''"
      and methods = sampleMount and s = "()" and s' = "()" and fileinfos = sampleDir,
      OF h1 h2 h3 h4]
  obtain l' ys err where r:
    "PermWrapperFS_List sampleMount hidePolicy ''/d'' () = (Inr l', ())"
    "protocolCalls hidePolicy l' [1, 2, 2] 0 [] = Some (Return (ys, err))"
    "length (visibleOf hidePolicy ''/d'' sampleDir) < length [1, 2, 2 :: nat] \<longrightarrow>
         err = Some EOF \<and> ys = visibleOf hidePolicy ''/d'' sampleDir"
    by blast
  from r(1) l have "l' = Filtered (DirFs_lister sampleDir) ''/d'' \<lparr>idxToHide = [], maxOffsetYet = 0\<rparr>"
    by simp
  moreover from r(3) v have "err = Some EOF" "ys = [plainFile ''a'', plainFile ''b'']"
    by simp_all
  ultimately show ?thesis using l r(2) by simp
qed

subsection \<open>The filtered listing over the root of a union\<close>

text \<open>
  An inner lister that answers a call with no entry and no error keeps the second
  loop of the filtering closure running: the batch is empty, so \<^verbatim>\<open>j\<close> stays 0, \<^verbatim>\<open>eof\<close>
  stays false and \<^verbatim>\<open>realOffset\<close> stays where it is.  The call never returns.
\<close>

lemma fillLoop_stalls:
  assumes "iter n realOffset = Return ([], None)"
  shows "fillLoop p path iter n realOffset st = None"
proof (rule ccontr)
  assume "fillLoop p path iter n realOffset st \<noteq> None"
  then obtain y where y: "fillLoop p path iter n realOffset st = Some y" by auto
  have "iter n realOffset \<noteq> Return ([], None)"
  proof (rule fillLoop.raw_induct
      [where P = "\<lambda>p path iter n realOffset st y. iter n realOffset \<noteq> Return ([], None)",
        OF _ y])
    fix f :: "'a PermWrapperFS \<Rightarrow> string \<Rightarrow> lister \<Rightarrow> nat \<Rightarrow> int \<Rightarrow> listState
        \<Rightarrow> ((FileInfo list \<times> error option) \<times> listState) outcome option"
    fix p path iter n realOffset st r
    assume ih: "\<And>p path iter n realOffset st y.
        f p path iter n realOffset st = Some y \<Longrightarrow> iter n realOffset \<noteq> Return ([], None)"
    assume step: "(case iter n realOffset of
          Panic \<Rightarrow> Some Panic
        | Return (raw, err) \<Rightarrow>
            if err \<noteq> None \<and> err \<noteq> Some EOF then Some (Return (([], err), st))
            else
              (case filterBatch p path raw realOffset st of
                 (ls, st') \<Rightarrow>
                   if ls = [] \<and> err \<noteq> Some EOF
                   then f p path iter n (realOffset + int (length raw)) st'
                   else Some (Return ((ls, if err = Some EOF then Some EOF else None), st'))))
        = Some r"
    show "iter n realOffset \<noteq> Return ([], None)"
    proof
      assume e: "iter n realOffset = Return ([], None)"
      with step have "f p path iter n realOffset st = Some r" by simp
      from ih [OF this] e show False by simp
    qed
  qed
  with assms show False by simp
qed

text \<open>What \<^verbatim>\<open>PermWrapperFS.List\<close> returns for the root of the wrapped union, for every
  method table: the filtering closure over the lister the union returns.\<close>

lemma PermWrapperFS_List_rootGuard:
  assumes "fsList (methods (Inner rootGuard)) ''/'' s = (Inr iter, s')"
  shows "PermWrapperFS_List methods rootGuard ''/'' s
    = (Inr (Filtered iter ''/'' \<lparr>idxToHide = [], maxOffsetYet = 0\<rparr>), s')"
proof -
  have "PermWrapperFS_CanRead rootGuard ''/''" "\<not> PermWrapperFS_ShouldHide rootGuard ''/''"
    "ShouldHideRegexp rootGuard \<noteq> []"
    by (simp_all add: PermWrapperFS_CanRead_def PermWrapperFS_ShouldHide_def rootGuard_def)
  with assms show ?thesis by (simp add: PermWrapperFS_List_def)
qed

lemma twoMountsRoot_second_entry: "twoMountsRoot 1 1 = Return ([], None)"
  by code_simp

lemma skipLoop_twoMountsRoot:
  "skipLoop rootGuard ''/'' twoMountsRoot 1 0 0 \<lparr>idxToHide = [], maxOffsetYet = 0\<rparr>
    = Return (Inr 1, \<lparr>idxToHide = [], maxOffsetYet = 1\<rparr>)"
  by code_simp

lemma fill_twoMountsRoot_first:
  "PermWrapperFS_fill rootGuard ''/'' twoMountsRoot \<lparr>idxToHide = [], maxOffsetYet = 0\<rparr> 1 0
     = Some (Return (([renamedFileInfo (topDirPath ''/'') ''docs''], None),
                     \<lparr>idxToHide = [], maxOffsetYet = 0\<rparr>))"
  by code_simp

lemma fill_twoMountsRoot_second:
  "PermWrapperFS_fill rootGuard ''/'' twoMountsRoot \<lparr>idxToHide = [], maxOffsetYet = 0\<rparr> 1 1
     = None"
proof -
  have "fillLoop rootGuard ''/'' twoMountsRoot 1 1 \<lparr>idxToHide = [], maxOffsetYet = 1\<rparr> = None"
    using twoMountsRoot_second_entry by (rule fillLoop_stalls)
  then show ?thesis
    unfolding PermWrapperFS_fill_def skipLoop_twoMountsRoot by simp
qed

text \<open>
  Claim C3 at a failing input.  \<^verbatim>\<open>CombinedFS\<close> with the mounts \<^verbatim>\<open>docs\<close> and \<^verbatim>\<open>pics\<close> behind
  a permission wrapper whose hide expression matches neither name; the root is listed
  with a buffer of length 1.  \<^verbatim>\<open>CombinedFS.List("/")\<close> returns the root closure, over which
  \<^verbatim>\<open>PermWrapperFS.List\<close> puts the filtering closure.  The call at offset 0 returns the
  entry \<^verbatim>\<open>docs\<close> without an error and leaves the variables of the closure as they
  were.  The call at offset 1 probes inner offset 0, arrives at inner offset 1 and
  asks the root closure for a batch there; the root closure computes
  \<^verbatim>\<open>min(2-1, 1-1) = 0\<close> and answers count 0 without an error, so the loop
  \<^verbatim>\<open>for j == 0 && !eof\<close> runs forever: the call does not return, and the client never
  receives \<^verbatim>\<open>pics\<close>, which is not hidden.
\<close>

theorem filtered_root_listing_never_returns:
  "CombinedFS_List (rtMethods emptyRuntime) twoMounts ''/'' () = Return (Inr twoMountsRoot, ()) \<and>
   CombinedFS_rootLister (rtMethods emptyRuntime) twoMounts 1 1 () = (Return (0, [], None), ()) \<and>
   PermWrapperFS_fill rootGuard ''/'' twoMountsRoot \<lparr>idxToHide = [], maxOffsetYet = 0\<rparr> 1 0
     = Some (Return (([renamedFileInfo (topDirPath ''/'') ''docs''], None),
                     \<lparr>idxToHide = [], maxOffsetYet = 0\<rparr>)) \<and>
   PermWrapperFS_fill rootGuard ''/'' twoMountsRoot \<lparr>idxToHide = [], maxOffsetYet = 0\<rparr> 1 1
     = None \<and>
   protocolCalls rootGuard (Filtered twoMountsRoot ''/'' \<lparr>idxToHide = [], maxOffsetYet = 0\<rparr>)
     [1, 1] 0 [] = None"
proof (intro conjI)
  show "CombinedFS_List (rtMethods emptyRuntime) twoMounts ''/'' () = Return (Inr twoMountsRoot, ())"
    by (simp add: CombinedFS_List_def twoMountsRoot_def)
  show "CombinedFS_rootLister (rtMethods emptyRuntime) twoMounts 1 1 () = (Return (0, [], None), ())"
    by code_simp
  show "PermWrapperFS_fill rootGuard ''/'' twoMountsRoot \<lparr>idxToHide = [], maxOffsetYet = 0\<rparr> 1 0
     = Some (Return (([renamedFileInfo (topDirPath ''/'') ''docs''], None),
                     \<lparr>idxToHide = [], maxOffsetYet = 0\<rparr>))"
    by (rule fill_twoMountsRoot_first)
  show "PermWrapperFS_fill rootGuard ''/'' twoMountsRoot \<lparr>idxToHide = [], maxOffsetYet = 0\<rparr> 1 1
     = None"
    by (rule fill_twoMountsRoot_second)
  have first: "callLister rootGuard
      (Filtered twoMountsRoot ''/'' \<lparr>idxToHide = [], maxOffsetYet = 0\<rparr>) 1 0
    = Some (Return (([renamedFileInfo (topDirPath ''/'') ''docs''], None),
          Filtered twoMountsRoot ''/'' \<lparr>idxToHide = [], maxOffsetYet = 0\<rparr>))"
    unfolding callLister_def by (simp only: permLister.case fill_twoMountsRoot_first) simp
  have second: "callLister rootGuard
      (Filtered twoMountsRoot ''/'' \<lparr>idxToHide = [], maxOffsetYet = 0\<rparr>) 1 1 = None"
    unfolding callLister_def by (simp only: permLister.case fill_twoMountsRoot_second) simp
  show "protocolCalls rootGuard (Filtered twoMountsRoot ''/'' \<lparr>idxToHide = [], maxOffsetYet = 0\<rparr>)
     [1, 1] 0 [] = None"
    by (simp add: first [unfolded One_nat_def] second [unfolded One_nat_def])
qed

text \<open>
  With a buffer of length 100 the first call delivers both entries with \<^verbatim>\<open>io.EOF\<close>.  A
  further call at offset 2 probes inner offset 1 with a buffer of length 1, is
  answered count 0 without an error, and returns \<^verbatim>\<open>io.ErrUnexpectedEOF\<close>.
\<close>

lemma filtered_root_listing_unexpected_eof:
  "PermWrapperFS_fill rootGuard ''/'' twoMountsRoot \<lparr>idxToHide = [], maxOffsetYet = 0\<rparr> 100 0
     = Some (Return (([renamedFileInfo (topDirPath ''/'') ''docs'',
                       renamedFileInfo (topDirPath ''/'') ''pics''], Some EOF),
                     \<lparr>idxToHide = [], maxOffsetYet = 0\<rparr>)) \<and>
   PermWrapperFS_fill rootGuard ''/'' twoMountsRoot \<lparr>idxToHide = [], maxOffsetYet = 0\<rparr> 100 2
     = Some (Return (([], Some ErrUnexpectedEOF), \<lparr>idxToHide = [], maxOffsetYet = 2\<rparr>))"
  by code_simp

section \<open>Properties of the WebDAV handles\<close>

text \<open>
  Claim C8 at a failing input.  \<^verbatim>\<open>O_RDONLY\<close> is 0, so the test
  \<^verbatim>\<open>flag&os.O_RDONLY == os.O_RDONLY\<close> holds for every flag word and the first branch
  of \<^verbatim>\<open>OpenFile\<close> takes every flag word that asks for writing: \<^verbatim>\<open>O_WRONLY\<close> yields the
  read-write handle, and no flag word yields the write-only handle.
\<close>

theorem OpenFile_never_write_only:
  "fst (OpenFile methods inner name O_WRONLY s) =
     Inr (ReadWriteFile \<lparr>rwFs = inner, rwFilename = name, rwReader = None, rwWriter = None,
            rwOffset = 0, rwStat = None\<rparr>) \<and>
   (\<forall>flag w. fst (OpenFile methods inner name flag s) \<noteq> Inr (WriteFile w))"
  by (auto simp: OpenFile_def O_RDONLY_def O_WRONLY_def split: prod.splits sum.splits)

section \<open>Properties of the union mount\<close>

text \<open>
  Claim C4 at a failing input.  Two mounts, buffer of length 1: the call at offset 0
  returns the entry of \<^verbatim>\<open>docs\<close>; the call at offset 1 computes
  \<^verbatim>\<open>min(len(topDirs)-offset, len(fs)-offset)\<close>, which is 0, and returns no entry and no
  \<^verbatim>\<open>io.EOF\<close>.  The entry of \<^verbatim>\<open>pics\<close> is never delivered.
\<close>

theorem rootLister_small_buffer_stalls:
  "CombinedFS_rootLister (rtMethods emptyRuntime) twoMounts 1 0 ()
     = (Return (1, [renamedFileInfo (topDirPath ''/'') ''docs''], None), ()) \<and>
   CombinedFS_rootLister (rtMethods emptyRuntime) twoMounts 1 1 ()
     = (Return (0, [], None), ())"
  by code_simp

text \<open>The same for every union, every buffer length and every offset the buffer length
  does not exceed: the call returns without an entry and without \<^verbatim>\<open>io.EOF\<close>.\<close>

lemma rootLister_stalls:
  assumes "0 < offset" "offset < int (length (Dirs c))" "int n \<le> offset"
  shows "CombinedFS_rootLister methods c n offset s = (Return (int n - offset, [], None), s)"
proof -
  have "rootLoop methods c (sort (map fst (Dirs c))) n offset (int n - offset) 0 [] s
      = (Return (Inl []), s)"
    using assms by (subst rootLoop.simps) simp
  with assms show ?thesis
    by (simp add: CombinedFS_rootLister_def minInt64_def Let_def)
qed

lemma extractLoop_error: "extractLoop dirs path = Return (Inl e) \<Longrightarrow> e = ErrNotExist"
  by (induction dirs path rule: extractLoop.induct) (auto simp: Let_def split: if_splits)

lemma extractLoop_no_panic: "extractLoop dirs path \<noteq> Panic"
  by (induction dirs path rule: extractLoop.induct) (auto simp: Let_def)

lemma Extract_error: "Extract c path = Return (Inl e) \<Longrightarrow> e = ErrNotExist"
  by (auto simp: Extract_def split: list.splits dest: extractLoop_error)

lemma single_path_root:
  "path = ''/'' \<or> Extract c path = Return (Inr (''/'', sfs)) \<Longrightarrow>
     CombinedFS_Mkdir methods c path s = Return (Some ErrPermission, s) \<and>
     CombinedFS_Rm methods c path s = Return (Some ErrPermission, s) \<and>
     CombinedFS_Rmdir methods c path s = Return (Some ErrPermission, s)"
  by (auto simp: CombinedFS_Mkdir_def CombinedFS_Rm_def CombinedFS_Rmdir_def)

lemma two_path_root:
  "src = ''/'' \<or> dst = ''/'' \<Longrightarrow>
     CombinedFS_Rename fuel rt c src dst s = Some (Return (Some ErrPermission, s)) \<and>
     CombinedFS_Link rt c src dst s = Return (Some ErrPermission, s) \<and>
     CombinedFS_Symlink rt c src dst s = Return (Some ErrPermission, s)"
  by (auto simp: CombinedFS_Rename_def CombinedFS_Link_def CombinedFS_Symlink_def linkLike_def)

text \<open>
  Claim C7, as stated, fails: \<^verbatim>\<open>Rename\<close> answers \<^verbatim>\<open>src == dst\<close> with success before it
  resolves either path, also when the path is a mount's own root.
\<close>

theorem rename_onto_itself_counterexample:
  "CombinedFS_Rename 1 emptyRuntime twoMounts ''/docs'' ''/docs'' () = Some (Return (None, ())) \<and>
   Extract twoMounts ''/docs'' = Return (Inr (''/'', ()))"
  by code_simp

text \<open>
  Claim C7, amended.  Mkdir, rm and rmdir fail with \<^verbatim>\<open>os.ErrPermission\<close> when the path
  is \<^verbatim>\<open>/\<close> or resolves to a mount's own root.  Rename, link and symlink fail with
  \<^verbatim>\<open>os.ErrPermission\<close> when an argument is \<^verbatim>\<open>/\<close>.  When both arguments resolve to
  mounts and one of them to a mount's own root, link and symlink fail with
  \<^verbatim>\<open>os.ErrPermission\<close> and rename fails with \<^verbatim>\<open>os.ErrInvalid\<close>, except that rename with
  equal arguments returns success and changes nothing.  When an argument resolves to
  no mount, the three fail with \<^verbatim>\<open>os.ErrNotExist\<close> (rename with different arguments).
\<close>

theorem root_and_mount_roots_immutable:
  "(path = ''/'' \<or> Extract c path = Return (Inr (''/'', sfs)) \<longrightarrow>
      CombinedFS_Mkdir methods c path s = Return (Some ErrPermission, s) \<and>
      CombinedFS_Rm methods c path s = Return (Some ErrPermission, s) \<and>
      CombinedFS_Rmdir methods c path s = Return (Some ErrPermission, s)) \<and>
   (src = ''/'' \<or> dst = ''/'' \<longrightarrow>
      CombinedFS_Rename fuel rt c src dst s = Some (Return (Some ErrPermission, s)) \<and>
      CombinedFS_Link rt c src dst s = Return (Some ErrPermission, s) \<and>
      CombinedFS_Symlink rt c src dst s = Return (Some ErrPermission, s)) \<and>
   (Extract c src = Return (Inr (subSrc, srcSfs)) \<and>
    Extract c dst = Return (Inr (subDst, dstSfs)) \<and> (subSrc = ''/'' \<or> subDst = ''/'') \<longrightarrow>
      CombinedFS_Rename fuel rt c src dst s =
        (if src = ''/'' \<or> dst = ''/'' then Some (Return (Some ErrPermission, s))
         else if src = dst then Some (Return (None, s))
         else Some (Return (Some ErrInvalid, s))) \<and>
      CombinedFS_Link rt c src dst s = Return (Some ErrPermission, s) \<and>
      CombinedFS_Symlink rt c src dst s = Return (Some ErrPermission, s)) \<and>
   (src \<noteq> ''/'' \<and> dst \<noteq> ''/'' \<and>
    (Extract c src = Return (Inl e) \<or>
     (Extract c src = Return (Inr (subSrc, srcSfs)) \<and> Extract c dst = Return (Inl e))) \<longrightarrow>
      (src \<noteq> dst \<longrightarrow>
         CombinedFS_Rename fuel rt c src dst s = Some (Return (Some ErrNotExist, s))) \<and>
      CombinedFS_Link rt c src dst s = Return (Some ErrNotExist, s) \<and>
      CombinedFS_Symlink rt c src dst s = Return (Some ErrNotExist, s))"
proof -
  have a: "path = ''/'' \<or> Extract c path = Return (Inr (''/'', sfs)) \<longrightarrow>
      CombinedFS_Mkdir methods c path s = Return (Some ErrPermission, s) \<and>
      CombinedFS_Rm methods c path s = Return (Some ErrPermission, s) \<and>
      CombinedFS_Rmdir methods c path s = Return (Some ErrPermission, s)"
    using single_path_root [of path c sfs methods s] by simp
  have b: "src = ''/'' \<or> dst = ''/'' \<longrightarrow>
      CombinedFS_Rename fuel rt c src dst s = Some (Return (Some ErrPermission, s)) \<and>
      CombinedFS_Link rt c src dst s = Return (Some ErrPermission, s) \<and>
      CombinedFS_Symlink rt c src dst s = Return (Some ErrPermission, s)"
    using two_path_root [of src dst fuel rt c s] by simp
  have c: "Extract c src = Return (Inr (subSrc, srcSfs)) \<and>
    Extract c dst = Return (Inr (subDst, dstSfs)) \<and> (subSrc = ''/'' \<or> subDst = ''/'') \<longrightarrow>
      CombinedFS_Rename fuel rt c src dst s =
        (if src = ''/'' \<or> dst = ''/'' then Some (Return (Some ErrPermission, s))
         else if src = dst then Some (Return (None, s))
         else Some (Return (Some ErrInvalid, s))) \<and>
      CombinedFS_Link rt c src dst s = Return (Some ErrPermission, s) \<and>
      CombinedFS_Symlink rt c src dst s = Return (Some ErrPermission, s)"
    by (simp add: CombinedFS_Link_def CombinedFS_Symlink_def linkLike_def CombinedFS_Rename_def)
  have d: "src \<noteq> ''/'' \<and> dst \<noteq> ''/'' \<and>
    (Extract c src = Return (Inl e) \<or>
     (Extract c src = Return (Inr (subSrc, srcSfs)) \<and> Extract c dst = Return (Inl e))) \<longrightarrow>
      (src \<noteq> dst \<longrightarrow>
         CombinedFS_Rename fuel rt c src dst s = Some (Return (Some ErrNotExist, s))) \<and>
      CombinedFS_Link rt c src dst s = Return (Some ErrNotExist, s) \<and>
      CombinedFS_Symlink rt c src dst s = Return (Some ErrNotExist, s)"
    using Extract_error [of c src e] Extract_error [of c dst e]
    by (auto simp: CombinedFS_Link_def CombinedFS_Symlink_def linkLike_def CombinedFS_Rename_def)
  from a b c d show ?thesis by (intro conjI)
qed

theorem root_and_mount_roots_immutable_witness:
  "Extract twoMounts ''/docs'' = Return (Inr (''/'', ())) \<and>
   Extract twoMounts ''/pics/x'' = Return (Inr (''/x'', ())) \<and>
   CombinedFS_Rmdir (rtMethods emptyRuntime) twoMounts ''/docs'' ()
     = Return (Some ErrPermission, ()) \<and>
   CombinedFS_Rename 1 emptyRuntime twoMounts ''/docs'' ''/pics/x'' ()
     = Some (Return (Some ErrInvalid, ())) \<and>
   CombinedFS_Link emptyRuntime twoMounts ''/pics/x'' ''/docs'' ()
     = Return (Some ErrPermission, ())"
proof -
  have a: "Extract twoMounts ''/docs'' = Return (Inr (''/'', ()))"
    by code_simp
  have b: "Extract twoMounts ''/pics/x'' = Return (Inr (''/x'', ()))"
    by code_simp
  have "''/docs'' = ''/'' \<or> Extract twoMounts ''/docs'' = Return (Inr (''/'', ())) \<longrightarrow>
      CombinedFS_Mkdir (rtMethods emptyRuntime) twoMounts ''/docs'' ()
        = Return (Some ErrPermission, ()) \<and>
      CombinedFS_Rm (rtMethods emptyRuntime) twoMounts ''/docs'' ()
        = Return (Some ErrPermission, ()) \<and>
      CombinedFS_Rmdir (rtMethods emptyRuntime) twoMounts ''/docs'' ()
        = Return (Some ErrPermission, ())"
    by (rule root_and_mount_roots_immutable [THEN conjunct1])
  with a have 1: "CombinedFS_Rmdir (rtMethods emptyRuntime) twoMounts ''/docs'' ()
     = Return (Some ErrPermission, ())"
    by simp
  have "Extract twoMounts ''/docs'' = Return (Inr (''/'', ())) \<and>
    Extract twoMounts ''/pics/x'' = Return (Inr (''/x'', ())) \<and> (''/'' = ''/'' \<or> ''/x'' = ''/'') \<longrightarrow>
      CombinedFS_Rename 1 emptyRuntime twoMounts ''/docs'' ''/pics/x'' () =
        (if ''/docs'' = ''/'' \<or> ''/pics/x'' = ''/'' then Some (Return (Some ErrPermission, ()))
         else if ''/docs'' = ''/pics/x'' then Some (Return (None, ()))
         else Some (Return (Some ErrInvalid, ()))) \<and>
      CombinedFS_Link emptyRuntime twoMounts ''/docs'' ''/pics/x'' ()
        = Return (Some ErrPermission, ()) \<and>
      CombinedFS_Symlink emptyRuntime twoMounts ''/docs'' ''/pics/x'' ()
        = Return (Some ErrPermission, ())"
    by (rule root_and_mount_roots_immutable [THEN conjunct2, THEN conjunct2, THEN conjunct1])
  with a b have 2: "CombinedFS_Rename 1 emptyRuntime twoMounts ''/docs'' ''/pics/x'' ()
     = Some (Return (Some ErrInvalid, ()))"
    by simp
  have "Extract twoMounts ''/pics/x'' = Return (Inr (''/x'', ())) \<and>
    Extract twoMounts ''/docs'' = Return (Inr (''/'', ())) \<and> (''/x'' = ''/'' \<or> ''/'' = ''/'') \<longrightarrow>
      CombinedFS_Rename 1 emptyRuntime twoMounts ''/pics/x'' ''/docs'' () =
        (if ''/pics/x'' = ''/'' \<or> ''/docs'' = ''/'' then Some (Return (Some ErrPermission, ()))
         else if ''/pics/x'' = ''/docs'' then Some (Return (None, ()))
         else Some (Return (Some ErrInvalid, ()))) \<and>
      CombinedFS_Link emptyRuntime twoMounts ''/pics/x'' ''/docs'' ()
        = Return (Some ErrPermission, ()) \<and>
      CombinedFS_Symlink emptyRuntime twoMounts ''/pics/x'' ''/docs'' ()
        = Return (Some ErrPermission, ())"
    by (rule root_and_mount_roots_immutable [THEN conjunct2, THEN conjunct2, THEN conjunct1])
  with a b have 3: "CombinedFS_Link emptyRuntime twoMounts ''/pics/x'' ''/docs'' ()
     = Return (Some ErrPermission, ())"
    by simp
  from a b 1 2 3 show ?thesis by (intro conjI)
qed

subsection \<open>The copy fallback of a cross-mount rename\<close>

text \<open>What the contracts give at an offset that is a natural number.\<close>

lemma readAtContractD:
  assumes "readAtContract rt v" "rtReadAt rt rd n (int k) s = ((chunk, err), s')"
    "contentAt v (readerLoc v rd) s = Some bs"
  shows "s' = s" "err = None \<or> err = Some EOF \<Longrightarrow> chunk = take n (drop k bs)"
    "err = None \<Longrightarrow> length chunk = n" "err = Some EOF \<Longrightarrow> length bs \<le> k + length chunk"
proof -
  have nn: "0 \<le> int k" by simp
  have "s' = s \<and>
           (err = None \<or> err = Some EOF \<longrightarrow> chunk = take n (drop (nat (int k)) bs)) \<and>
           (err = None \<longrightarrow> length chunk = n) \<and>
           (err = Some EOF \<longrightarrow> length bs \<le> nat (int k) + length chunk)"
    using assms nn unfolding readAtContract_def by blast
  then show "s' = s" "err = None \<or> err = Some EOF \<Longrightarrow> chunk = take n (drop k bs)"
    "err = None \<Longrightarrow> length chunk = n" "err = Some EOF \<Longrightarrow> length bs \<le> k + length chunk"
    by auto
qed

lemma writeAtContractD:
  assumes "writeAtContract rt v" "rtWriteAt rt wr chunk (int k) s = ((length chunk, None), s')"
    "contentAt v (writerLoc v wr) s = Some old"
  shows "contentAt v (writerLoc v wr) s' = Some (overwrite old k chunk)"
    "l \<noteq> writerLoc v wr \<Longrightarrow> contentAt v l s' = contentAt v l s"
proof -
  have nn: "0 \<le> int k" by simp
  have "contentAt v (writerLoc v wr) s' = Some (overwrite old (nat (int k)) chunk) \<and>
           (\<forall>l. l \<noteq> writerLoc v wr \<longrightarrow> contentAt v l s' = contentAt v l s)"
    using assms nn unfolding writeAtContract_def by blast
  then show "contentAt v (writerLoc v wr) s' = Some (overwrite old k chunk)"
    "l \<noteq> writerLoc v wr \<Longrightarrow> contentAt v l s' = contentAt v l s"
    by simp_all
qed

text \<open>Writing at the end of a prefix of the source appends.\<close>

lemma overwrite_append:
  "k \<le> length bs \<Longrightarrow> overwrite (take k bs) k chunk = take k bs @ chunk"
  by (simp add: overwrite_def min_def)

text \<open>
  The copy loop.  When the destination holds the first \<open>k\<close> bytes of the source, both
  offsets are \<open>k\<close> and the loop returns without an error, the destination holds the
  whole source and the source is unchanged.  Induction on the bytes still to copy: a
  read without error fills the 32 KiB buffer, so the next round starts closer to the
  end; a read with \<^verbatim>\<open>io.EOF\<close> delivers the rest.
\<close>

lemma copyLoop_copies:
  assumes rc: "readAtContract rt v" and wc: "writeAtContract rt v"
    and ne: "readerLoc v reader \<noteq> writerLoc v writer"
    and src: "contentAt v (readerLoc v reader) s = Some bs"
    and dst: "contentAt v (writerLoc v writer) s = Some (take k bs)"
    and k: "k \<le> length bs"
    and run: "copyLoop rt writer (int k) reader (int k) s = Some (None, s')"
  shows "contentAt v (writerLoc v writer) s' = Some bs \<and>
         contentAt v (readerLoc v reader) s' = Some bs"
  using src dst k run
proof (induction "length bs - k" arbitrary: k s rule: less_induct)
  case less
  note src = \<open>contentAt v (readerLoc v reader) s = Some bs\<close>
    and dst = \<open>contentAt v (writerLoc v writer) s = Some (take k bs)\<close>
    and k = \<open>k \<le> length bs\<close>
    and run = \<open>copyLoop rt writer (int k) reader (int k) s = Some (None, s')\<close>
  obtain chunk er s1 where rd: "rtReadAt rt reader copyBufferSize (int k) s = ((chunk, er), s1)"
    by (metis prod.exhaust)
  note r = readAtContractD [OF rc rd src]
  obtain nw ew s2 where wr: "rtWriteAt rt writer chunk (int k) s = ((nw, ew), s2)"
    by (metis prod.exhaust)
  from run have run':
    "(if chunk \<noteq> [] then
        if ew \<noteq> None then Some (ew, s2)
        else if nw \<noteq> length chunk then Some (Some ErrShortWrite, s2)
        else (case er of
                Some e \<Rightarrow> Some (if e = EOF then None else Some e, s2)
              | None \<Rightarrow> copyLoop rt writer (int k + int nw) reader (int k + int (length chunk)) s2)
      else (case er of
              Some e \<Rightarrow> Some (if e = EOF then None else Some e, s)
            | None \<Rightarrow> copyLoop rt writer (int k) reader (int k + int (length chunk)) s))
     = Some (None, s')"
    apply (subst (asm) copyLoop.simps)
    apply (simp add: readWrapper_Read_def writerWrapper_Write_def rd wr r(1)
        split: option.splits if_splits)
    done
  have er: "er = None \<or> er = Some EOF"
    using run' by (cases er) (auto split: if_splits)
  then have chunk: "chunk = take copyBufferSize (drop k bs)" by (rule r(2))
  show ?case
  proof (cases "chunk = []")
    case True
    with er r(3) have e: "er = Some EOF" by (auto simp: copyBufferSize_def)
    with run' True have "s' = s" by simp
    moreover from r(4) [OF e] True k have "take k bs = bs" by simp
    ultimately show ?thesis using src dst by simp
  next
    case False
    with run' have ew: "ew = None" and nw: "nw = length chunk"
      by (auto split: if_splits)
    note w = writeAtContractD [OF wc wr [unfolded ew nw] dst]
    have d2: "contentAt v (writerLoc v writer) s2 = Some (take k bs @ chunk)"
      using w(1) k by (simp add: overwrite_append)
    have s2: "contentAt v (readerLoc v reader) s2 = Some bs"
      using w(2) [OF ne] src by simp
    show ?thesis
    proof (cases er)
      case (Some e)
      with er have e: "er = Some EOF" by simp
      with run' False ew nw have "s' = s2" by simp
      moreover from r(4) [OF e] chunk have "chunk = drop k bs" by simp
      ultimately show ?thesis using d2 s2 by simp
    next
      case None
      from r(3) [OF None] have len: "length chunk = copyBufferSize" .
      with chunk have le: "k + copyBufferSize \<le> length bs"
        by (simp add: copyBufferSize_def min_def split: if_splits)
      have d3: "contentAt v (writerLoc v writer) s2 = Some (take (k + copyBufferSize) bs)"
        using d2 chunk by (simp add: take_add)
      from run' False ew nw None len have rec:
        "copyLoop rt writer (int (k + copyBufferSize)) reader (int (k + copyBufferSize)) s2
           = Some (None, s')"
        by simp
      have "length bs - (k + copyBufferSize) < length bs - k"
        using le by (simp add: copyBufferSize_def)
      from less.hyps [OF this s2 d3 le rec] show ?thesis .
    qed
  qed
qed

text \<open>The in-memory tables meet every contract.\<close>

lemma tableRuntime_fileStore: "fileStore tableRuntime tableView"
  unfolding fileStore_def
proof (intro conjI)
  show "sameIsEquality tableRuntime"
    by (simp add: sameIsEquality_def tableRuntime_def)
  show "statContract tableRuntime tableView"
    by (auto simp: statContract_def tableRuntime_def tableView_def tableMount_def EmptyFS_def
        split: option.splits)
  show "openContract tableRuntime tableView"
    by (auto simp: openContract_def tableRuntime_def tableView_def tableMount_def EmptyFS_def
        split: option.splits)
  show "readAtContract tableRuntime tableView"
    by (auto simp: readAtContract_def tableRuntime_def tableView_def tableReadAt_def Let_def
        split: option.splits if_splits)
  show "createContract tableRuntime tableView"
    by (auto simp: createContract_def tableRuntime_def tableView_def tableMount_def EmptyFS_def
        split: option.splits)
  show "writeAtContract tableRuntime tableView"
    by (auto simp: writeAtContract_def tableRuntime_def tableView_def tableWriteAt_def
        split: option.splits if_splits)
  show "removeContract tableRuntime tableView"
    by (auto simp: removeContract_def tableRuntime_def tableView_def tableMount_def EmptyFS_def
        split: option.splits)
qed

text \<open>
  C6.  Let \<^verbatim>\<open>src\<close> and \<^verbatim>\<open>dst\<close> resolve to two different inner mounts that are not both
  native directories, let the inner mounts behave as a table of files (\<open>fileStore\<close>),
  and let \<^verbatim>\<open>Stat\<close> of the source report a non-directory.  If \<^verbatim>\<open>CombinedFS.Rename\<close> returns
  without an error, then the source was a regular file with some bytes \<open>bs\<close>, and in
  the state the rename leaves behind the destination is a regular file with exactly
  the bytes \<open>bs\<close> and there is no file at the source any more.  That the destination
  does not exist beforehand needs no hypothesis: the rename checks it itself and a run
  that finds the destination returns the error \<^verbatim>\<open>target path exists\<close>.
\<close>

theorem rename_fallback_moves_file:
  assumes store: "fileStore rt v"
    and ex1: "Extract c src = Return (Inr (subSrc, srcSfs))"
    and ex2: "Extract c dst = Return (Inr (subDst, dstSfs))"
    and diff: "srcSfs \<noteq> dstSfs"
    and nn: "rtOsDirFS rt srcSfs = None \<or> rtOsDirFS rt dstSfs = None"
    and regular: "fsStat (rtMethods rt srcSfs) subSrc s = (Inr srcStat, s1)"
    and nodir: "\<not> IsDir srcStat"
    and ok: "CombinedFS_Rename fuel rt c src dst s = Some (Return (None, s'))"
  shows "\<exists>bs. contentAt v (locOf v srcSfs subSrc) s = Some bs \<and>
              contentAt v (locOf v dstSfs subDst) s' = Some bs \<and>
              contentAt v (locOf v srcSfs subSrc) s' = None"
proof -
  from store have same: "sameIsEquality rt" and stc: "statContract rt v"
    and opc: "openContract rt v" and rdc: "readAtContract rt v"
    and crc: "createContract rt v" and wrc: "writeAtContract rt v"
    and rmc: "removeContract rt v"
    by (simp_all add: fileStore_def)
  let ?ls = "locOf v srcSfs subSrc" and ?ld = "locOf v dstSfs subDst"
  from diff ex1 ex2 have sd: "src \<noteq> dst" by auto
  from ok have nr: "src \<noteq> ''/''" "dst \<noteq> ''/''"
    by (auto simp: CombinedFS_Rename_def split: if_splits)
  from ok nr sd ex1 ex2 have sub: "subSrc \<noteq> ''/''" "subDst \<noteq> ''/''"
    by (auto simp: CombinedFS_Rename_def split: if_splits)
  have cmp: "rtSame rt srcSfs dstSfs = Return False"
  proof (cases "rtSame rt srcSfs dstSfs")
    case Panic
    with ok nr sd ex1 ex2 sub show ?thesis by (simp add: CombinedFS_Rename_def)
  next
    case (Return b)
    with same diff show ?thesis by (auto simp: sameIsEquality_def)
  qed
  from ok nr sd ex1 ex2 sub cmp nn have fb:
    "renameFallback fuel rt srcSfs dstSfs subSrc subDst s = Some (Return (None, s'))"
    by (auto simp: CombinedFS_Rename_def split: option.splits)
  from stc regular nodir have s1: "s1 = s" and ex: "contentAt v ?ls s \<noteq> None"
    unfolding statContract_def by blast+
  then obtain bs where bs: "contentAt v ?ls s = Some bs" by auto
  obtain r2 s2 where st2: "fsStat (rtMethods rt dstSfs) subDst s = (r2, s2)"
    by (metis prod.exhaust)
  from fb regular s1 st2 nodir have r2: "r2 = Inl ErrNotExist"
    and ff: "renameFileFallback rt srcSfs dstSfs subSrc subDst s2 = Some (None, s')"
    by (auto simp: renameFallback_def split: sum.splits if_splits)
  from stc st2 r2 have s2: "s2 = s" and absent: "contentAt v ?ld s = None"
    unfolding statContract_def by blast+
  from bs absent have ne: "?ls \<noteq> ?ld" by auto
  obtain rr sa where rd: "fsRead (rtMethods rt srcSfs) subSrc s = (rr, sa)"
    by (metis prod.exhaust)
  obtain wr sb where wr: "fsWrite (rtMethods rt dstSfs) subDst s = (wr, sb)"
    by (metis prod.exhaust)
  from ff s2 rd obtain reader where rr: "rr = Inr reader"
    by (cases rr) (auto simp: renameFileFallback_def)
  from opc rd rr have sa: "sa = s" and rl: "readerLoc v reader = ?ls"
    unfolding openContract_def by blast+
  from ff s2 rd rr sa wr obtain writer where ww: "wr = Inr writer"
    by (cases wr) (auto simp: renameFileFallback_def)
  from crc wr ww absent have wl: "writerLoc v writer = ?ld"
    and d0: "contentAt v ?ld sb = Some []"
    and fr: "\<And>l. l \<noteq> ?ld \<Longrightarrow> contentAt v l sb = contentAt v l s"
    unfolding createContract_def by (blast, force, blast)
  from ff s2 rd rr sa wr ww obtain sc where
    cp: "copyLoop rt writer 0 reader 0 sb = Some (None, sc)"
    and rm: "fsRm (rtMethods rt srcSfs) subSrc sc = (None, s')"
    by (auto simp: renameFileFallback_def split: option.splits prod.splits)
  have "contentAt v (writerLoc v writer) sc = Some bs \<and>
        contentAt v (readerLoc v reader) sc = Some bs"
  proof (rule copyLoop_copies [OF rdc wrc, where k = 0])
    show "readerLoc v reader \<noteq> writerLoc v writer" using ne rl wl by simp
    show "contentAt v (readerLoc v reader) sb = Some bs" using fr [OF ne] bs rl by simp
    show "contentAt v (writerLoc v writer) sb = Some (take 0 bs)" using d0 wl by simp
    show "0 \<le> length bs" by simp
    show "copyLoop rt writer (int 0) reader (int 0) sb = Some (None, sc)" using cp by simp
  qed
  then have dc: "contentAt v ?ld sc = Some bs" using wl by simp
  from rmc rm have gone: "contentAt v ?ls s' = None"
    and fr2: "\<And>l. l \<noteq> ?ls \<Longrightarrow> contentAt v l s' = contentAt v l sc"
    unfolding removeContract_def by blast+
  from fr2 [of ?ld] ne dc have "contentAt v ?ld s' = Some bs" by simp
  with bs gone show ?thesis by blast
qed

text \<open>
  The rename of \<^verbatim>\<open>/docs/x.txt\<close> to \<^verbatim>\<open>/pics/x.txt\<close> over the two in-memory tables returns
  without an error; afterwards the three bytes are in \<open>B\<close> and gone from \<open>A\<close>.
\<close>

lemma rename_table_run:
  "(case CombinedFS_Rename 0 tableRuntime docsAndPics ''/docs/x.txt'' ''/pics/x.txt'' oneFile of
      Some (Return (None, s')) \<Rightarrow> True | _ \<Rightarrow> False)"
  by code_simp

theorem rename_fallback_moves_file_witness:
  "\<exists>s'. CombinedFS_Rename 0 tableRuntime docsAndPics ''/docs/x.txt'' ''/pics/x.txt'' oneFile
           = Some (Return (None, s')) \<and>
        s' (''B'', ''/x.txt'') = Some ([104, 105, 10]) \<and>
        s' (''A'', ''/x.txt'') = None"
proof -
  obtain s' where ok:
    "CombinedFS_Rename 0 tableRuntime docsAndPics ''/docs/x.txt'' ''/pics/x.txt'' oneFile
       = Some (Return (None, s'))"
    using rename_table_run by (auto split: option.splits outcome.splits prod.splits)
  have ex1: "Extract docsAndPics ''/docs/x.txt'' = Return (Inr (''/x.txt'', ''A''))"
    by code_simp
  have ex2: "Extract docsAndPics ''/pics/x.txt'' = Return (Inr (''/x.txt'', ''B''))"
    by code_simp
  have diff: "''A'' \<noteq> ''B''" by simp
  have nn: "rtOsDirFS tableRuntime ''A'' = None \<or> rtOsDirFS tableRuntime ''B'' = None"
    by (simp add: tableRuntime_def)
  have regular: "fsStat (rtMethods tableRuntime ''A'') ''/x.txt'' oneFile
      = (Inr \<lparr>Name = ''/x.txt'', Size = 3, Mode = 420, ModTime = 0, IsDir = False\<rparr>, oneFile)"
    by (simp add: tableRuntime_def tableMount_def EmptyFS_def oneFile_def)
  have nodir: "\<not> IsDir \<lparr>Name = ''/x.txt'', Size = 3, Mode = 420, ModTime = 0, IsDir = False\<rparr>"
    by simp
  from rename_fallback_moves_file [OF tableRuntime_fileStore ex1 ex2 diff nn regular nodir ok]
  have "s' (''B'', ''/x.txt'') = Some ([104, 105, 10]) \<and> s' (''A'', ''/x.txt'') = None"
    by (simp add: tableView_def oneFile_def)
  with ok show ?thesis by blast
qed

end
